theory Spec2Isabelle
  imports Main
begin

section \<open>Python strings\<close>

text \<open>
  A Python \<open>str\<close> is a sequence of Unicode code points. It is modelled as a list of
  natural numbers, so that \<open>strip\<close> and \<open>split\<close> see the same characters as the
  interpreter does. \<open>str\<close> turns an ASCII literal into that representation.
\<close>

type_synonym pystr = "nat list"

definition str :: "string \<Rightarrow> pystr" where
  "str s = map of_char s"

text \<open>The characters for which \<open>str.isspace\<close> holds (the whitespace of CPython).\<close>

definition isspace :: "nat \<Rightarrow> bool" where
  "isspace c \<longleftrightarrow>
     (9 \<le> c \<and> c \<le> 13) \<or> (28 \<le> c \<and> c \<le> 32) \<or> c = 133 \<or> c = 160 \<or> c = 5760 \<or>
     (8192 \<le> c \<and> c \<le> 8202) \<or> c = 8232 \<or> c = 8233 \<or> c = 8239 \<or> c = 8287 \<or>
     c = 12288"

text \<open>\<open>s.strip()\<close>: whitespace removed at both ends.\<close>

definition py_strip :: "pystr \<Rightarrow> pystr" where
  "py_strip s = rev (dropWhile isspace (rev (dropWhile isspace s)))"

text \<open>
  \<open>s.split()\<close>: the maximal runs of non-whitespace characters, in order. The scan keeps
  the token read so far in \<open>cur\<close>.
\<close>

fun split_scan :: "pystr \<Rightarrow> pystr \<Rightarrow> pystr list" where
  "split_scan cur [] = (if cur = [] then [] else [cur])"
| "split_scan cur (c # cs) =
     (if isspace c then (if cur = [] then [] else [cur]) @ split_scan [] cs
      else split_scan (cur @ [c]) cs)"

definition py_split :: "pystr \<Rightarrow> pystr list" where
  "py_split s = split_scan [] s"

text \<open>\<open>' '.join(xs)\<close>.\<close>

fun join_space :: "pystr list \<Rightarrow> pystr" where
  "join_space [] = []"
| "join_space [x] = x"
| "join_space (x # y # ys) = x @ [32] @ join_space (y # ys)"

section \<open>The parsed document\<close>

text \<open>
  \<open>BeautifulSoup(response.text, "html5lib")\<close> gives a tree of tags, strings and
  comments. A tag carries its name, its attributes (name and raw value, looked up with
  \<open>map_of\<close>) and its children. The document itself is the list of its top-level nodes.
\<close>

datatype node =
    Tag pystr "(pystr \<times> pystr) list" "node list"
  | NavigableString pystr
  | Comment pystr

type_synonym soup = "node list"

text \<open>Document order: a node, then its descendants, then what follows it.\<close>

fun preorder :: "node \<Rightarrow> node list" where
  "preorder (Tag nm as cs) = Tag nm as cs # concat (map preorder cs)"
| "preorder (NavigableString s) = [NavigableString s]"
| "preorder (Comment s) = [Comment s]"

definition descendants :: "soup \<Rightarrow> node list" where
  "descendants soup = concat (map preorder soup)"

text \<open>\<open>tag.text\<close>: the strings below the tag, concatenated; comments are left out.\<close>

fun get_text :: "node \<Rightarrow> pystr" where
  "get_text (Tag nm as cs) = concat (map get_text cs)"
| "get_text (NavigableString s) = s"
| "get_text (Comment s) = []"

text \<open>\<open>tag.get(k)\<close>: the attribute's value, or \<open>None\<close>.\<close>

fun attr_get :: "node \<Rightarrow> pystr \<Rightarrow> pystr option" where
  "attr_get (Tag nm as cs) k = map_of as k"
| "attr_get (NavigableString s) k = None"
| "attr_get (Comment s) k = None"

text \<open>The search criteria the program uses.\<close>

fun is_tag :: "pystr \<Rightarrow> node \<Rightarrow> bool" where
  "is_tag n (Tag nm as cs) = (nm = n)"
| "is_tag n (NavigableString s) = False"
| "is_tag n (Comment s) = False"

text \<open>
  \<open>class_=c\<close>: the \<open>class\<close> attribute is a list of whitespace-separated tokens; a tag
  matches when one token is \<open>c\<close>, or when the tokens joined by single spaces are \<open>c\<close>.
\<close>

definition has_class :: "pystr \<Rightarrow> node \<Rightarrow> bool" where
  "has_class c x =
     (case attr_get x (str ''class'') of
        None \<Rightarrow> False
      | Some v \<Rightarrow> c \<in> set (py_split v) \<or> join_space (py_split v) = c)"

text \<open>\<open>k=v\<close> on a single-valued attribute, and \<open>attrs={k: True}\<close>.\<close>

definition attr_is :: "pystr \<Rightarrow> pystr \<Rightarrow> node \<Rightarrow> bool" where
  "attr_is k v x = (attr_get x k = Some v)"

definition has_attr :: "pystr \<Rightarrow> node \<Rightarrow> bool" where
  "has_attr k x = (attr_get x k \<noteq> None)"

text \<open>
  A tag found in the document is the tag together with everything after it in document
  order, which is what \<open>find_next\<close> walks through.
\<close>

type_synonym element = "node \<times> node list"

fun find_all_in :: "(node \<Rightarrow> bool) \<Rightarrow> node list \<Rightarrow> element list" where
  "find_all_in P [] = []"
| "find_all_in P (x # xs) = (if P x then [(x, xs)] else []) @ find_all_in P xs"

definition find_in :: "(node \<Rightarrow> bool) \<Rightarrow> node list \<Rightarrow> element option" where
  "find_in P xs = (case find_all_in P xs of [] \<Rightarrow> None | e # es \<Rightarrow> Some e)"

definition find_all :: "(node \<Rightarrow> bool) \<Rightarrow> soup \<Rightarrow> element list" where
  "find_all P soup = find_all_in P (descendants soup)"

definition find_tag :: "(node \<Rightarrow> bool) \<Rightarrow> soup \<Rightarrow> element option" where
  "find_tag P soup = find_in P (descendants soup)"

definition find_next :: "(node \<Rightarrow> bool) \<Rightarrow> element \<Rightarrow> element option" where
  "find_next P e = find_in P (snd e)"

section \<open>Errors and the network\<close>

datatype error = AttributeError | IndexError | KeyError | MissingSchema | RequestError

text \<open>
  \<open>web\<close> is the site during one run: what a GET of a URL answers, already parsed by
  \<open>html5lib\<close>, or the exception \<open>requests.get\<close> raises. The site is taken as fixed
  while the run lasts: the same URL gets the same answer. A URL that is \<open>None\<close> has no
  scheme, and \<open>requests.get\<close> raises \<open>MissingSchema\<close> on it.
\<close>

type_synonym web = "pystr \<Rightarrow> error + soup"

definition get_soup :: "web \<Rightarrow> pystr option \<Rightarrow> error + soup" where
  "get_soup w url = (case url of None \<Rightarrow> Inl MissingSchema | Some u \<Rightarrow> w u)"

section \<open>The program\<close>

subsection \<open>scrape_recipe_links\<close>

definition recipe_card_link :: "node \<Rightarrow> bool" where
  "recipe_card_link x \<longleftrightarrow> is_tag (str ''a'') x \<and> has_class (str ''recipe-card-link'') x"

definition scrape_recipe_links :: "web \<Rightarrow> pystr option \<Rightarrow> error + pystr option list" where
  "scrape_recipe_links w url =
     (case get_soup w url of
        Inl e \<Rightarrow> Inl e
      | Inr soup \<Rightarrow>
          Inr (map (\<lambda>link. attr_get (fst link) (str ''href''))
                   (find_all recipe_card_link soup)))"

subsection \<open>recipe_type\<close>

definition url_entree :: pystr where
  "url_entree = str ''https://www.marmiton.org/recettes/top-internautes-entree.aspx''"

definition url_plat :: pystr where
  "url_plat = str ''https://www.marmiton.org/recettes/top-internautes-plat-principal.aspx''"

definition url_dessert :: pystr where
  "url_dessert = str ''https://www.marmiton.org/recettes/top-internautes-dessert.aspx''"

definition recipe_type :: "pystr \<Rightarrow> pystr option" where
  "recipe_type url =
     (if url = url_entree then Some (str ''entree'')
      else if url = url_plat then Some (str ''plat'')
      else if url = url_dessert then Some (str ''dessert'')
      else None)"

subsection \<open>scrape_recipe_data\<close>

text \<open>
  The result tuple of \<open>scrape_recipe_data\<close>. The ingredients dictionary keeps its
  insertion order: assigning to a key that is already there replaces the value in place,
  a new key goes to the end.
\<close>

type_synonym dict = "(pystr \<times> pystr) list"

fun dict_set :: "pystr \<Rightarrow> pystr \<Rightarrow> dict \<Rightarrow> dict" where
  "dict_set k v [] = [(k, v)]"
| "dict_set k v (p # ps) = (if fst p = k then (k, v) # ps else p # dict_set k v ps)"

record recipe_data =
  recipe_name :: pystr
  recipe_rate :: pystr
  recipe_comments :: pystr
  recipe_difficulty :: pystr
  recipe_timer :: pystr
  ingredients_dict :: dict

text \<open>\<open>x.text.strip()\<close>, where \<open>x\<close> is the result of a search: \<open>None\<close> has no \<open>text\<close>.\<close>

definition text_strip :: "element option \<Rightarrow> error + pystr" where
  "text_strip r =
     (case r of None \<Rightarrow> Inl AttributeError | Some e \<Rightarrow> Inr (py_strip (get_text (fst e))))"

text \<open>The markers of a recipe page.\<close>

definition rating_text :: "node \<Rightarrow> bool" where
  "rating_text x \<longleftrightarrow>
     is_tag (str ''span'') x \<and> has_class (str ''recipe-header__rating-text'') x"

definition comment_icon :: "node \<Rightarrow> bool" where
  "comment_icon x \<longleftrightarrow> is_tag (str ''i'') x \<and> has_class (str ''icon icon-icon_comment'') x"

definition reviews_anchor :: "node \<Rightarrow> bool" where
  "reviews_anchor x \<longleftrightarrow>
     is_tag (str ''a'') x \<and> attr_is (str ''href'') (str ''#topReviewsTitle'') x"

definition difficulty_icon :: "node \<Rightarrow> bool" where
  "difficulty_icon x \<longleftrightarrow> is_tag (str ''i'') x \<and> has_class (str ''icon icon-difficulty'') x"

definition timer_icon :: "node \<Rightarrow> bool" where
  "timer_icon x \<longleftrightarrow> is_tag (str ''i'') x \<and> has_class (str ''icon icon-timer1'') x"

definition card_ingredient :: "node \<Rightarrow> bool" where
  "card_ingredient x \<longleftrightarrow>
     is_tag (str ''div'') x \<and> has_class (str ''card-ingredient'') x \<and>
     has_attr (str ''data-name'') x"

definition count_span :: "node \<Rightarrow> bool" where
  "count_span x \<longleftrightarrow> is_tag (str ''span'') x \<and> has_class (str ''count'') x"

text \<open>The loop over the ingredient blocks (lines 96 to 100).\<close>

fun ingredients_loop :: "element list \<Rightarrow> dict \<Rightarrow> error + dict" where
  "ingredients_loop [] d = Inr d"
| "ingredients_loop (tag # tags) d =
     (case attr_get (fst tag) (str ''data-name'') of
        None \<Rightarrow> Inl KeyError
      | Some ingredient_name \<Rightarrow>
          (case text_strip (find_next count_span tag) of
             Inl e \<Rightarrow> Inl e
           | Inr ingredient_quantity \<Rightarrow>
               ingredients_loop tags (dict_set ingredient_name ingredient_quantity d)))"

text \<open>Lines 75 to 102: what \<open>scrape_recipe_data\<close> does with the parsed page.\<close>

definition recipe_of_soup :: "soup \<Rightarrow> error + recipe_data" where
  "recipe_of_soup soup =
     (case text_strip (find_tag (is_tag (str ''h1'')) soup) of
        Inl e \<Rightarrow> Inl e
      | Inr name \<Rightarrow>
     (case text_strip (find_tag rating_text soup) of
        Inl e \<Rightarrow> Inl e
      | Inr rate \<Rightarrow>
     (case find_tag comment_icon soup of
        None \<Rightarrow> Inl AttributeError
      | Some comments_tag \<Rightarrow>
     (case text_strip (find_next reviews_anchor comments_tag) of
        Inl e \<Rightarrow> Inl e
      | Inr comments \<Rightarrow>
     (case find_tag difficulty_icon soup of
        None \<Rightarrow> Inl AttributeError
      | Some difficulty_tag \<Rightarrow>
     (case text_strip (find_next (is_tag (str ''span'')) difficulty_tag) of
        Inl e \<Rightarrow> Inl e
      | Inr difficulty \<Rightarrow>
     (case find_tag timer_icon soup of
        None \<Rightarrow> Inl AttributeError
      | Some timer_tag \<Rightarrow>
     (case text_strip (find_next (is_tag (str ''span'')) timer_tag) of
        Inl e \<Rightarrow> Inl e
      | Inr timer \<Rightarrow>
     (case ingredients_loop (find_all card_ingredient soup) [] of
        Inl e \<Rightarrow> Inl e
      | Inr ingredients \<Rightarrow>
          Inr \<lparr>recipe_name = name, recipe_rate = rate, recipe_comments = comments,
               recipe_difficulty = difficulty, recipe_timer = timer,
               ingredients_dict = ingredients\<rparr>)))))))))"

definition scrape_recipe_data :: "web \<Rightarrow> pystr option \<Rightarrow> error + recipe_data" where
  "scrape_recipe_data w url =
     (case get_soup w url of Inl e \<Rightarrow> Inl e | Inr soup \<Rightarrow> recipe_of_soup soup)"

subsection \<open>The markers of a recipe page\<close>

text \<open>
  What a recipe page is expected to carry: a heading, a rating text, a comment icon with
  a reviews anchor after it, a difficulty icon and a timer icon each with a \<open>span\<close>
  after it, and after every ingredient block a \<open>span\<close> of class \<open>count\<close>.
\<close>

definition has_marker :: "(node \<Rightarrow> bool) \<Rightarrow> soup \<Rightarrow> bool" where
  "has_marker P soup = list_ex P (descendants soup)"

definition has_marker_then :: "(node \<Rightarrow> bool) \<Rightarrow> (node \<Rightarrow> bool) \<Rightarrow> soup \<Rightarrow> bool" where
  "has_marker_then P Q soup =
     (case find_tag P soup of None \<Rightarrow> False | Some t \<Rightarrow> list_ex Q (snd t))"

definition fields_present :: "soup \<Rightarrow> bool" where
  "fields_present soup \<longleftrightarrow>
     has_marker (is_tag (str ''h1'')) soup \<and>
     has_marker rating_text soup \<and>
     has_marker_then comment_icon reviews_anchor soup \<and>
     has_marker_then difficulty_icon (is_tag (str ''span'')) soup \<and>
     has_marker_then timer_icon (is_tag (str ''span'')) soup"

text \<open>The stripped text found after a marker, as lines 81 to 91 read it.\<close>

definition next_text :: "(node \<Rightarrow> bool) \<Rightarrow> (node \<Rightarrow> bool) \<Rightarrow> soup \<Rightarrow> error + pystr" where
  "next_text P Q soup =
     (case find_tag P soup of None \<Rightarrow> Inl AttributeError | Some t \<Rightarrow> text_strip (find_next Q t))"

text \<open>The ingredient blocks of a page, with the name and the quantity read from each.\<close>

definition ingredient_blocks :: "soup \<Rightarrow> element list" where
  "ingredient_blocks soup = find_all card_ingredient soup"

definition block_name :: "element \<Rightarrow> pystr option" where
  "block_name b = attr_get (fst b) (str ''data-name'')"

definition block_quantity :: "element \<Rightarrow> pystr option" where
  "block_quantity b =
     (case find_next count_span b of
        None \<Rightarrow> None
      | Some q \<Rightarrow> Some (py_strip (get_text (fst q))))"

definition quantities_present :: "soup \<Rightarrow> bool" where
  "quantities_present soup = list_all (\<lambda>b. block_quantity b \<noteq> None) (ingredient_blocks soup)"

definition markers_present :: "soup \<Rightarrow> bool" where
  "markers_present soup \<longleftrightarrow> fields_present soup \<and> quantities_present soup"

text \<open>A string with no whitespace at either end.\<close>

definition trimmed :: "pystr \<Rightarrow> bool" where
  "trimmed s \<longleftrightarrow> s = [] \<or> (\<not> isspace (hd s) \<and> \<not> isspace (last s))"

text \<open>A string of whitespace only; the empty string is one.\<close>

definition blank :: "pystr \<Rightarrow> bool" where
  "blank t = list_all isspace t"

text \<open>
  The text a field is read from, before it is stripped: the text of the first element
  that matches \<open>P\<close>, and the text of the first element that matches \<open>Q\<close> after the first
  one that matches \<open>P\<close>.
\<close>

definition marker_text :: "(node \<Rightarrow> bool) \<Rightarrow> soup \<Rightarrow> pystr option" where
  "marker_text P soup =
     (case find_tag P soup of None \<Rightarrow> None | Some e \<Rightarrow> Some (get_text (fst e)))"

definition marker_then_text :: "(node \<Rightarrow> bool) \<Rightarrow> (node \<Rightarrow> bool) \<Rightarrow> soup \<Rightarrow> pystr option" where
  "marker_then_text P Q soup =
     (case find_tag P soup of
        None \<Rightarrow> None
      | Some t \<Rightarrow>
          (case find_next Q t of None \<Rightarrow> None | Some e \<Rightarrow> Some (get_text (fst e))))"

subsection \<open>Tables\<close>

text \<open>
  A cell of a \<open>DataFrame\<close> holds a string, \<open>None\<close>, a dictionary, or the \<open>NaN\<close> that
  pandas fills in where a row has no value for a column. A frame has its column labels,
  its row index and its rows, each row with one cell per column.
\<close>

datatype cell = CStr pystr | CNone | CDict dict | NaN

fun cell_of :: "pystr option \<Rightarrow> cell" where
  "cell_of None = CNone"
| "cell_of (Some s) = CStr s"

type_synonym pydict = "(pystr \<times> cell) list"

record frame =
  columns :: "pystr list"
  index :: "nat list"
  rows :: "cell list list"

text \<open>The labels of several label lists, each once, in order of first appearance.\<close>

definition union_labels :: "pystr list list \<Rightarrow> pystr list" where
  "union_labels ls = fold (\<lambda>l acc. if l \<in> set acc then acc else acc @ [l]) (concat ls) []"

text \<open>A row laid out along the columns \<open>cs\<close>, from its own labels \<open>ks\<close> and cells.\<close>

definition align :: "pystr list \<Rightarrow> pystr list \<Rightarrow> cell list \<Rightarrow> cell list" where
  "align cs ks r = map (\<lambda>c. case map_of (zip ks r) c of None \<Rightarrow> NaN | Some v \<Rightarrow> v) cs"

text \<open>
  \<open>pd.DataFrame(records)\<close> for a list of dictionaries: the columns are the keys in
  order of first appearance, the index counts the rows from 0, and an empty list gives a
  frame with no column and no row.
\<close>

definition DataFrame :: "pydict list \<Rightarrow> frame" where
  "DataFrame records =
     (let cs = union_labels (map (map fst) records) in
      \<lparr>columns = cs, index = [0 ..< length records],
       rows = map (\<lambda>d. align cs (map fst d) (map snd d)) records\<rparr>)"

text \<open>
  \<open>pd.concat(dataframes, ignore_index=True)\<close>: the columns of all frames, the rows of
  all frames in order, laid out along these columns, and a fresh index counting from 0.
\<close>

definition append_dataframes :: "frame list \<Rightarrow> frame" where
  "append_dataframes dataframes =
     (let cs = union_labels (map columns dataframes);
          rs = concat (map (\<lambda>df. map (align cs (columns df)) (rows df)) dataframes) in
      \<lparr>columns = cs, index = [0 ..< length rs], rows = rs\<rparr>)"

text \<open>\<open>df[c]\<close>: the cells of column \<open>c\<close>, row by row (\<open>None\<close> when there is no such column).\<close>

definition column_values :: "frame \<Rightarrow> pystr \<Rightarrow> cell option list" where
  "column_values df c = map (\<lambda>r. map_of (zip (columns df) r) c) (rows df)"

text \<open>The column labels of a recipe row, in the order of the dictionary literal.\<close>

definition record_labels :: "pystr list" where
  "record_labels =
     [str ''Recipe Type'', str ''Recipe Name'', str ''Rating'', str ''Comments'',
      str ''Difficulty'', str ''Timer'', str ''Ingredients'', str ''URL'']"

subsection \<open>scrape_recipes_info\<close>

text \<open>\<open>xs[0]\<close> on a list.\<close>

definition first :: "'a list \<Rightarrow> error + 'a" where
  "first xs = (case xs of [] \<Rightarrow> Inl IndexError | x # _ \<Rightarrow> Inr x)"

text \<open>
  The body of the loop (lines 122 to 134): the page is scraped, the comments phrase is cut
  down to its first token, and the dictionary of the row is built, keys in the order of the
  literal.
\<close>

definition recipe_record :: "web \<Rightarrow> pystr option \<Rightarrow> pystr option \<Rightarrow> error + pydict" where
  "recipe_record w ty url =
     (case scrape_recipe_data w url of
        Inl e \<Rightarrow> Inl e
      | Inr d \<Rightarrow>
          (case first (py_split (recipe_comments d)) of
             Inl e \<Rightarrow> Inl e
           | Inr c \<Rightarrow>
               Inr [(str ''Recipe Type'', cell_of ty),
                    (str ''Recipe Name'', CStr (recipe_name d)),
                    (str ''Rating'', CStr (recipe_rate d)),
                    (str ''Comments'', CStr c),
                    (str ''Difficulty'', CStr (recipe_difficulty d)),
                    (str ''Timer'', CStr (recipe_timer d)),
                    (str ''Ingredients'', CDict (ingredients_dict d)),
                    (str ''URL'', cell_of url)]))"

text \<open>The loop of lines 121 to 134; \<open>recipes_info\<close> is the list built so far.\<close>

fun recipes_info_loop ::
  "web \<Rightarrow> pystr option list \<Rightarrow> pystr option \<Rightarrow> pydict list \<Rightarrow> error + pydict list" where
  "recipes_info_loop w [] ty recipes_info = Inr recipes_info"
| "recipes_info_loop w (url # urls) ty recipes_info =
     (case recipe_record w ty url of
        Inl e \<Rightarrow> Inl e
      | Inr r \<Rightarrow> recipes_info_loop w urls ty (recipes_info @ [r]))"

definition scrape_recipes_info :: "web \<Rightarrow> pystr option list \<Rightarrow> pystr option \<Rightarrow> error + frame" where
  "scrape_recipes_info w urls ty =
     (case recipes_info_loop w urls ty [] of
        Inl e \<Rightarrow> Inl e
      | Inr recipes_info \<Rightarrow> Inr (DataFrame recipes_info))"

subsection \<open>create_database and the output file\<close>

definition create_database :: "web \<Rightarrow> error + frame" where
  "create_database w =
     (case scrape_recipe_links w (Some url_entree) of
        Inl e \<Rightarrow> Inl e
      | Inr links_entree \<Rightarrow>
     (case scrape_recipes_info w links_entree (recipe_type url_entree) of
        Inl e \<Rightarrow> Inl e
      | Inr df_entree \<Rightarrow>
     (case scrape_recipe_links w (Some url_plat) of
        Inl e \<Rightarrow> Inl e
      | Inr links_plat \<Rightarrow>
     (case scrape_recipes_info w links_plat (recipe_type url_plat) of
        Inl e \<Rightarrow> Inl e
      | Inr df_plat \<Rightarrow>
     (case scrape_recipe_links w (Some url_dessert) of
        Inl e \<Rightarrow> Inl e
      | Inr links_dessert \<Rightarrow>
     (case scrape_recipes_info w links_dessert (recipe_type url_dessert) of
        Inl e \<Rightarrow> Inl e
      | Inr df_dessert \<Rightarrow>
          Inr (append_dataframes [df_entree, df_plat, df_dessert])))))))"

text \<open>
  \<open>df.to_csv(path)\<close> writes a header line, the index label (empty) followed by the
  column labels, and one line per row, the row's index followed by its cells. The file is
  kept as these fields. The file system maps a path to the file stored there.
\<close>

record csv_file =
  header :: "pystr list"
  lines :: "(nat \<times> cell list) list"

definition to_csv :: "frame \<Rightarrow> csv_file" where
  "to_csv df = \<lparr>header = [] # columns df, lines = zip (index df) (rows df)\<rparr>"

type_synonym files = "pystr \<Rightarrow> csv_file option"

definition output_path :: pystr where
  "output_path = str ''DataFrame Marmiton.csv''"

text \<open>Line 178, the whole run: the table is written only when it has been built.\<close>

definition run :: "web \<Rightarrow> files \<Rightarrow> error option \<times> files" where
  "run w fs =
     (case create_database w of
        Inl e \<Rightarrow> (Some e, fs)
      | Inr df \<Rightarrow> (None, fs(output_path \<mapsto> to_csv df)))"

section \<open>Example pages\<close>

text \<open>Small documents in the shape of the site's pages, used to run the program.\<close>

definition ex_document :: "node list \<Rightarrow> soup" where
  "ex_document body = [Tag (str ''html'') [] [Tag (str ''head'') [] [], Tag (str ''body'') [] body]]"

definition ex_card :: "pystr \<Rightarrow> node" where
  "ex_card href =
     Tag (str ''a'') [(str ''class'', str ''recipe-card-link''), (str ''href'', href)] []"

definition ex_listing :: "pystr list \<Rightarrow> soup" where
  "ex_listing hrefs = ex_document (map ex_card hrefs)"

definition ex_heading :: "pystr \<Rightarrow> node" where
  "ex_heading t = Tag (str ''h1'') [] [NavigableString t]"

definition ex_rating :: node where
  "ex_rating =
     Tag (str ''span'') [(str ''class'', str ''recipe-header__rating-text'')]
       [NavigableString (str ''4.8/5'')]"

definition ex_comments :: "pystr \<Rightarrow> node list" where
  "ex_comments t =
     [Tag (str ''i'') [(str ''class'', str ''icon icon-icon_comment'')] [],
      Tag (str ''a'') [(str ''href'', str ''#topReviewsTitle'')] [NavigableString t]]"

definition ex_difficulty :: "node list" where
  "ex_difficulty =
     [Tag (str ''i'') [(str ''class'', str ''icon icon-difficulty'')] [],
      Tag (str ''span'') [] [NavigableString (str ''facile'')]]"

definition ex_timer :: "node list" where
  "ex_timer =
     [Tag (str ''i'') [(str ''class'', str ''icon icon-timer1'')] [],
      Tag (str ''span'') [] [NavigableString (str ''1 h'')]]"

definition ex_ingredient :: "pystr \<Rightarrow> pystr \<Rightarrow> node" where
  "ex_ingredient n q =
     Tag (str ''div'') [(str ''class'', str ''card-ingredient''), (str ''data-name'', n)]
       [Tag (str ''span'') [(str ''class'', str ''count'')] [NavigableString q]]"

text \<open>The phrase \<open>42 avis publi\'es\<close>; the accented letter is code point 233.\<close>

definition avis_42 :: pystr where
  "avis_42 = str ''42 avis publi'' @ [233] @ str ''s''"

definition ex_recipe :: soup where
  "ex_recipe =
     ex_document
       ([ex_heading (str '' Tarte ''), ex_rating] @ ex_comments avis_42 @ ex_difficulty @
        ex_timer @ [ex_ingredient (str ''sucre'') (str ''100 ''),
                    ex_ingredient (str ''farine'') (str ''250'')])"

text \<open>The same page without the difficulty icon and its text.\<close>

definition ex_recipe_no_difficulty :: soup where
  "ex_recipe_no_difficulty =
     ex_document
       ([ex_heading (str '' Tarte ''), ex_rating] @ ex_comments avis_42 @
        [Tag (str ''div'') [] ex_timer])"

text \<open>A page whose reviews anchor has no text.\<close>

definition ex_recipe_silent :: soup where
  "ex_recipe_silent =
     ex_document
       ([ex_heading (str ''Tarte''), ex_rating] @ ex_comments [] @ ex_difficulty @ ex_timer)"

text \<open>A page without ingredient blocks.\<close>

definition ex_recipe_bare :: soup where
  "ex_recipe_bare =
     ex_document
       ([ex_heading (str ''Tarte''), ex_rating] @ ex_comments avis_42 @ ex_difficulty @
        ex_timer)"

text \<open>A page with an empty heading and two ingredient blocks of the same name.\<close>

definition ex_recipe_twice :: soup where
  "ex_recipe_twice =
     ex_document
       ([Tag (str ''h1'') [] [], ex_rating] @ ex_comments avis_42 @ ex_difficulty @ ex_timer @
        [ex_ingredient (str ''sucre'') (str ''100''), ex_ingredient (str ''sucre'') (str ''200'')])"

text \<open>A listing with three recipe cards, the second one without \<open>href\<close>, and another link.\<close>

definition ex_url1 :: pystr where
  "ex_url1 = str ''https://www.marmiton.org/recettes/r1.aspx''"

definition ex_url2 :: pystr where
  "ex_url2 = str ''https://www.marmiton.org/recettes/r2.aspx''"

definition ex_url3 :: pystr where
  "ex_url3 = str ''https://www.marmiton.org/recettes/r3.aspx''"

definition ex_links_page :: soup where
  "ex_links_page =
     ex_document
       [ex_card ex_url1,
        Tag (str ''a'') [(str ''class'', str ''big recipe-card-link'')] [],
        Tag (str ''a'') [(str ''href'', str ''/aide'')] [NavigableString (str ''Aide'')],
        ex_card ex_url2]"

definition ex_links_site :: web where
  "ex_links_site u = (if u = url_entree then Inr ex_links_page else Inl RequestError)"

text \<open>Sites: the three listings with 2, 1 and 3 cards, and a page for every other URL.\<close>

definition ex_site_with :: "soup \<Rightarrow> web" where
  "ex_site_with page u =
     (if u = url_entree then Inr (ex_listing [ex_url1, ex_url2])
      else if u = url_plat then Inr (ex_listing [ex_url3])
      else if u = url_dessert then Inr (ex_listing [ex_url1, ex_url2, ex_url3])
      else Inr page)"

definition ex_site :: web where
  "ex_site = ex_site_with ex_recipe"

definition ex_site_broken :: web where
  "ex_site_broken = ex_site_with ex_recipe_no_difficulty"

text \<open>A site whose pages carry no recipe card at all, and an empty file system.\<close>

definition ex_site_empty :: web where
  "ex_site_empty u = Inr (ex_document [])"

definition no_files :: files where
  "no_files p = None"

section \<open>Lemmas\<close>

subsection \<open>Strings\<close>

lemma str_eq_iff: "str s = str t \<longleftrightarrow> s = t"
  unfolding str_def by (simp add: inj_def)

lemma split_scan_Nil_iff:
  "split_scan cur s = [] \<longleftrightarrow> cur = [] \<and> (\<forall>c\<in>set s. isspace c)"
  by (induction s arbitrary: cur) auto

lemma py_split_Nil_iff: "py_split s = [] \<longleftrightarrow> (\<forall>c\<in>set s. isspace c)"
  by (simp add: py_split_def split_scan_Nil_iff)
lemma split_scan_first:
  "cur @ takeWhile (\<lambda>c. \<not> isspace c) s \<noteq> [] \<Longrightarrow>
   first (split_scan cur s) = Inr (cur @ takeWhile (\<lambda>c. \<not> isspace c) s)"
  by (induction s arbitrary: cur) (auto simp: first_def)

lemma split_scan_skip: "split_scan [] s = split_scan [] (dropWhile isspace s)"
  by (induction s) auto

lemma py_split_first:
  "first (py_split s) =
     (if \<forall>c\<in>set s. isspace c then Inl IndexError
      else Inr (takeWhile (\<lambda>c. \<not> isspace c) (dropWhile isspace s)))"
proof (cases "\<forall>c\<in>set s. isspace c")
  case True
  then have "py_split s = []" by (simp add: py_split_Nil_iff)
  with True show ?thesis by (simp add: first_def)
next
  case False
  then have ne: "dropWhile isspace s \<noteq> []" by simp
  then have "\<not> isspace (hd (dropWhile isspace s))" by (rule hd_dropWhile)
  with ne have "takeWhile (\<lambda>c. \<not> isspace c) (dropWhile isspace s) \<noteq> []"
    by (cases "dropWhile isspace s") auto
  then have "first (split_scan [] (dropWhile isspace s)) =
      Inr (takeWhile (\<lambda>c. \<not> isspace c) (dropWhile isspace s))"
    using split_scan_first[of "[]" "dropWhile isspace s"] by simp
  with False show ?thesis
    unfolding py_split_def using split_scan_skip[of s] by simp
qed

lemma py_strip_Nil_iff: "py_strip s = [] \<longleftrightarrow> (\<forall>c\<in>set s. isspace c)"
proof
  assume "py_strip s = []"
  then have "\<forall>c\<in>set (dropWhile isspace s). isspace c"
    by (simp add: py_strip_def)
  moreover have "\<forall>c\<in>set (takeWhile isspace s). isspace c"
    by (auto dest: set_takeWhileD)
  moreover have "set s = set (takeWhile isspace s) \<union> set (dropWhile isspace s)"
    by (metis set_append takeWhile_dropWhile_id)
  ultimately show "\<forall>c\<in>set s. isspace c" by auto
next
  assume "\<forall>c\<in>set s. isspace c"
  then show "py_strip s = []" by (auto simp: py_strip_def dest: set_dropWhileD)
qed

lemma last_dropWhile_ne: "dropWhile P xs \<noteq> [] \<Longrightarrow> last (dropWhile P xs) = last xs"
  by (induction xs) (auto split: if_splits)

lemma py_strip_ends:
  assumes "py_strip s \<noteq> []"
  shows "\<not> isspace (hd (py_strip s)) \<and> \<not> isspace (last (py_strip s))"
proof -
  let ?t = "dropWhile isspace s"
  let ?u = "dropWhile isspace (rev ?t)"
  from assms have u: "?u \<noteq> []" by (simp add: py_strip_def)
  then have t: "?t \<noteq> []" by (auto dest: set_dropWhileD)
  have "last (py_strip s) = hd ?u" using u by (simp add: py_strip_def last_rev)
  moreover have "\<not> isspace (hd ?u)" using u by (rule hd_dropWhile)
  moreover have "hd (py_strip s) = last ?u" using u by (simp add: py_strip_def hd_rev)
  moreover have "last ?u = last (rev ?t)" using u by (rule last_dropWhile_ne)
  moreover have "last (rev ?t) = hd ?t" using t by (simp add: last_rev)
  moreover have "\<not> isspace (hd ?t)" using t by (rule hd_dropWhile)
  ultimately show ?thesis by simp
qed

lemma isspace_32: "isspace 32"
  by (simp add: isspace_def)

lemma join_space_token:
  assumes "join_space ts = c" "c \<noteq> []" "\<forall>x\<in>set c. \<not> isspace x"
  shows "ts = [c]"
proof (cases ts rule: join_space.cases)
  case 1
  with assms show ?thesis by simp
next
  case (2 x)
  with assms show ?thesis by simp
next
  case (3 x y ys)
  with assms(1) have "32 \<in> set c" by auto
  with assms(3) isspace_32 show ?thesis by blast
qed

subsection \<open>Searching the document\<close>

lemma urls_distinct:
  "url_entree \<noteq> url_plat" "url_entree \<noteq> url_dessert" "url_plat \<noteq> url_dessert"
  by (simp_all add: url_entree_def url_plat_def url_dessert_def str_eq_iff)

lemma find_all_in_fst: "map fst (find_all_in P xs) = filter P xs"
  by (induction xs) auto

lemma find_all_in_holds: "e \<in> set (find_all_in P xs) \<Longrightarrow> P (fst e)"
  by (induction xs) (auto split: if_splits)

lemma find_in_None_iff: "find_in P xs = None \<longleftrightarrow> (\<forall>x\<in>set xs. \<not> P x)"
  by (induction xs) (auto simp: find_in_def split: list.splits)

lemma has_class_token:
  assumes "c \<noteq> []" "\<forall>x\<in>set c. \<not> isspace x"
  shows "has_class c x \<longleftrightarrow> (\<exists>v. attr_get x (str ''class'') = Some v \<and> c \<in> set (py_split v))"
proof (cases "attr_get x (str ''class'')")
  case None
  then show ?thesis by (simp add: has_class_def)
next
  case (Some v)
  have "join_space (py_split v) = c \<Longrightarrow> c \<in> set (py_split v)"
    using join_space_token[OF _ assms, of "py_split v"] by simp
  with Some show ?thesis by (auto simp: has_class_def)
qed

lemma find_in_None_ex: "find_in P xs = None \<longleftrightarrow> \<not> list_ex P xs"
  by (simp add: find_in_None_iff list_ex_iff)

subsection \<open>The ingredients dictionary\<close>

lemma map_of_dict_set: "map_of (dict_set k v d) = (map_of d)(k \<mapsto> v)"
  by (induction d) (auto simp: fun_eq_iff)

lemma keys_dict_set: "fst ` set (dict_set k v d) = insert k (fst ` set d)"
  by (induction d) auto

lemma distinct_dict_set: "distinct (map fst d) \<Longrightarrow> distinct (map fst (dict_set k v d))"
  by (induction d) (auto simp: keys_dict_set)

lemma ingredients_loop_Cons:
  "ingredients_loop (b # tags) d =
     (case block_name b of
        None \<Rightarrow> Inl KeyError
      | Some n \<Rightarrow>
          (case block_quantity b of
             None \<Rightarrow> Inl AttributeError
           | Some q \<Rightarrow> ingredients_loop tags (dict_set n q d)))"
  by (simp add: block_name_def block_quantity_def text_strip_def split: option.splits)

lemma ingredients_loop_Inr_iff:
  "(\<exists>d'. ingredients_loop tags d = Inr d') \<longleftrightarrow>
   (\<forall>b\<in>set tags. block_name b \<noteq> None \<and> block_quantity b \<noteq> None)"
  by (induction tags arbitrary: d)
     (auto simp: ingredients_loop_Cons simp del: ingredients_loop.simps(2) split: option.splits)

lemma ingredients_loop_error:
  "ingredients_loop tags d = Inl e \<Longrightarrow> \<forall>b\<in>set tags. block_name b \<noteq> None \<Longrightarrow>
   e = AttributeError \<and> (\<exists>b\<in>set tags. block_quantity b = None)"
  by (induction tags arbitrary: d)
     (auto simp: ingredients_loop_Cons simp del: ingredients_loop.simps(2) split: option.splits)

lemma ingredients_loop_keys:
  "ingredients_loop tags d = Inr d' \<Longrightarrow>
   fst ` set d' = fst ` set d \<union> {k. \<exists>b\<in>set tags. block_name b = Some k}"
proof (induction tags arbitrary: d)
  case Nil
  then show ?case by simp
next
  case (Cons b tags)
  from Cons.prems obtain n q where
    n: "block_name b = Some n" and q: "block_quantity b = Some q"
    and rest: "ingredients_loop tags (dict_set n q d) = Inr d'"
    by (auto simp: ingredients_loop_Cons simp del: ingredients_loop.simps(2) split: option.splits)
  from Cons.IH[OF rest] n show ?case by (auto simp: keys_dict_set)
qed

lemma ingredients_loop_distinct:
  "ingredients_loop tags d = Inr d' \<Longrightarrow> distinct (map fst d) \<Longrightarrow> distinct (map fst d')"
  by (induction tags arbitrary: d)
     (auto simp: ingredients_loop_Cons distinct_dict_set simp del: ingredients_loop.simps(2)
           split: option.splits)

lemma ingredients_loop_other:
  "ingredients_loop tags d = Inr d' \<Longrightarrow> \<forall>b\<in>set tags. block_name b \<noteq> Some k \<Longrightarrow>
   map_of d' k = map_of d k"
  by (induction tags arbitrary: d)
     (auto simp: ingredients_loop_Cons map_of_dict_set simp del: ingredients_loop.simps(2)
           split: option.splits)

lemma ingredients_loop_last:
  "ingredients_loop tags d = Inr d' \<Longrightarrow> j < length tags \<Longrightarrow> block_name (tags ! j) = Some k \<Longrightarrow>
   \<forall>m. j < m \<and> m < length tags \<longrightarrow> block_name (tags ! m) \<noteq> Some k \<Longrightarrow>
   map_of d' k = block_quantity (tags ! j)"
proof (induction tags arbitrary: d j)
  case Nil
  then show ?case by simp
next
  case (Cons b tags)
  from Cons.prems(1) obtain n q where
    n: "block_name b = Some n" and q: "block_quantity b = Some q"
    and rest: "ingredients_loop tags (dict_set n q d) = Inr d'"
    by (auto simp: ingredients_loop_Cons simp del: ingredients_loop.simps(2) split: option.splits)
  show ?case
  proof (cases j)
    case 0
    have "\<forall>x\<in>set tags. block_name x \<noteq> Some k"
    proof
      fix x assume "x \<in> set tags"
      then obtain m where "m < length tags" "tags ! m = x" by (auto simp: in_set_conv_nth)
      with Cons.prems(4) 0 show "block_name x \<noteq> Some k"
        by (metis length_Cons not_less_eq nth_Cons_Suc zero_less_Suc)
    qed
    with rest have "map_of d' k = map_of (dict_set n q d) k" by (rule ingredients_loop_other)
    with 0 Cons.prems(3) n q show ?thesis by (simp add: map_of_dict_set)
  next
    case (Suc j')
    with Cons.prems have "j' < length tags" "block_name (tags ! j') = Some k"
      "\<forall>m. j' < m \<and> m < length tags \<longrightarrow> block_name (tags ! m) \<noteq> Some k"
      by auto
    with rest have "map_of d' k = block_quantity (tags ! j')" by (rule Cons.IH)
    with Suc show ?thesis by simp
  qed
qed

subsection \<open>Extraction and markers\<close>

lemma trimmed_py_strip: "trimmed (py_strip s)"
  using py_strip_ends[of s] by (auto simp: trimmed_def)

lemma find_tag_None: "find_tag P soup = None \<longleftrightarrow> \<not> has_marker P soup"
  by (simp add: find_tag_def has_marker_def find_in_None_ex)

lemma find_next_None: "find_next Q t = None \<longleftrightarrow> \<not> list_ex Q (snd t)"
  by (simp add: find_next_def find_in_None_ex)

lemma text_strip_find_tag:
  "text_strip (find_tag P soup) =
     (if has_marker P soup then Inr (py_strip (get_text (fst (the (find_tag P soup)))))
      else Inl AttributeError)"
  using find_tag_None[of P soup] by (cases "find_tag P soup") (auto simp: text_strip_def)

lemma block_name_present: "b \<in> set (ingredient_blocks soup) \<Longrightarrow> block_name b \<noteq> None"
  using find_all_in_holds[of b card_ingredient "descendants soup"]
  by (simp add: ingredient_blocks_def find_all_def card_ingredient_def has_attr_def block_name_def)

lemma ingredients_Inr_iff:
  "(\<exists>d. ingredients_loop (ingredient_blocks soup) [] = Inr d) \<longleftrightarrow> quantities_present soup"
  using block_name_present[of _ soup]
  by (auto simp: ingredients_loop_Inr_iff quantities_present_def list_all_iff)

lemma ingredients_Inl:
  "ingredients_loop (ingredient_blocks soup) [] = Inl e \<Longrightarrow> e = AttributeError"
  using ingredients_loop_error[of "ingredient_blocks soup" "[]" e] block_name_present[of _ soup]
  by blast

lemma next_text_Inr_iff: "(\<exists>s. next_text P Q soup = Inr s) \<longleftrightarrow> has_marker_then P Q soup"
proof (cases "find_tag P soup")
  case None
  then show ?thesis by (simp add: next_text_def has_marker_then_def)
next
  case (Some t)
  then show ?thesis
    using find_next_None[of Q t]
    by (cases "find_next Q t") (auto simp: next_text_def has_marker_then_def text_strip_def)
qed

lemma next_text_Inl: "next_text P Q soup = Inl e \<Longrightarrow> e = AttributeError"
  by (auto simp: next_text_def text_strip_def split: option.splits)

lemma next_text_trimmed: "next_text P Q soup = Inr s \<Longrightarrow> trimmed s"
  by (auto simp: next_text_def text_strip_def trimmed_py_strip split: option.splits)

lemma first_text_Inr_iff: "(\<exists>s. text_strip (find_tag P soup) = Inr s) \<longleftrightarrow> has_marker P soup"
  by (simp add: text_strip_find_tag)

lemma text_strip_Inl: "text_strip r = Inl e \<Longrightarrow> e = AttributeError"
  by (auto simp: text_strip_def split: option.splits)

lemma text_strip_trimmed: "text_strip r = Inr s \<Longrightarrow> trimmed s"
  by (auto simp: text_strip_def trimmed_py_strip split: option.splits)

lemma recipe_of_soup_alt:
  "recipe_of_soup soup =
     (case text_strip (find_tag (is_tag (str ''h1'')) soup) of
        Inl e \<Rightarrow> Inl e
      | Inr name \<Rightarrow>
     (case text_strip (find_tag rating_text soup) of
        Inl e \<Rightarrow> Inl e
      | Inr rate \<Rightarrow>
     (case next_text comment_icon reviews_anchor soup of
        Inl e \<Rightarrow> Inl e
      | Inr comments \<Rightarrow>
     (case next_text difficulty_icon (is_tag (str ''span'')) soup of
        Inl e \<Rightarrow> Inl e
      | Inr difficulty \<Rightarrow>
     (case next_text timer_icon (is_tag (str ''span'')) soup of
        Inl e \<Rightarrow> Inl e
      | Inr timer \<Rightarrow>
     (case ingredients_loop (ingredient_blocks soup) [] of
        Inl e \<Rightarrow> Inl e
      | Inr ingredients \<Rightarrow>
          Inr \<lparr>recipe_name = name, recipe_rate = rate, recipe_comments = comments,
               recipe_difficulty = difficulty, recipe_timer = timer,
               ingredients_dict = ingredients\<rparr>))))))"
  by (simp add: recipe_of_soup_def next_text_def ingredient_blocks_def
           split: sum.splits option.splits)

lemma recipe_of_soup_Inl: "recipe_of_soup soup = Inl e \<Longrightarrow> e = AttributeError"
  unfolding recipe_of_soup_alt
  by (auto split: sum.splits dest: text_strip_Inl next_text_Inl ingredients_Inl)

lemma recipe_of_soup_Inr_iff: "(\<exists>d. recipe_of_soup soup = Inr d) \<longleftrightarrow> markers_present soup"
proof -
  have "(\<exists>d. recipe_of_soup soup = Inr d) \<longleftrightarrow>
     (\<exists>s. text_strip (find_tag (is_tag (str ''h1'')) soup) = Inr s) \<and>
     (\<exists>s. text_strip (find_tag rating_text soup) = Inr s) \<and>
     (\<exists>s. next_text comment_icon reviews_anchor soup = Inr s) \<and>
     (\<exists>s. next_text difficulty_icon (is_tag (str ''span'')) soup = Inr s) \<and>
     (\<exists>s. next_text timer_icon (is_tag (str ''span'')) soup = Inr s) \<and>
     (\<exists>d. ingredients_loop (ingredient_blocks soup) [] = Inr d)"
    unfolding recipe_of_soup_alt by (auto split: sum.splits)
  then show ?thesis
    by (simp only: first_text_Inr_iff next_text_Inr_iff ingredients_Inr_iff
          markers_present_def fields_present_def conj_assoc)
qed

lemma recipe_of_soup_fail: "\<not> markers_present soup \<Longrightarrow> recipe_of_soup soup = Inl AttributeError"
  using recipe_of_soup_Inr_iff[of soup] recipe_of_soup_Inl[of soup]
  by (cases "recipe_of_soup soup") auto

lemma recipe_of_soup_result:
  assumes "recipe_of_soup soup = Inr d"
  shows "text_strip (find_tag (is_tag (str ''h1'')) soup) = Inr (recipe_name d)"
    and "text_strip (find_tag rating_text soup) = Inr (recipe_rate d)"
    and "next_text comment_icon reviews_anchor soup = Inr (recipe_comments d)"
    and "next_text difficulty_icon (is_tag (str ''span'')) soup = Inr (recipe_difficulty d)"
    and "next_text timer_icon (is_tag (str ''span'')) soup = Inr (recipe_timer d)"
    and "ingredients_loop (ingredient_blocks soup) [] = Inr (ingredients_dict d)"
  using assms unfolding recipe_of_soup_alt by (auto split: sum.splits)

subsection \<open>Labels and alignment\<close>

lemma labels_distinct: "distinct record_labels"
  by (simp add: record_labels_def str_eq_iff)

lemma labels_length: "length record_labels = 8"
  by (simp add: record_labels_def)

lemma recipe_record_keys: "recipe_record w ty url = Inr r \<Longrightarrow> map fst r = record_labels"
  by (auto simp: recipe_record_def record_labels_def split: sum.splits)

lemma recipes_info_loop_Inr:
  "recipes_info_loop w urls ty acc = Inr rs \<longleftrightarrow>
   (\<exists>new. rs = acc @ new \<and> list_all2 (\<lambda>url r. recipe_record w ty url = Inr r) urls new)"
proof (induction urls arbitrary: acc)
  case Nil
  then show ?case by auto
next
  case (Cons url urls)
  show ?case
  proof (cases "recipe_record w ty url")
    case (Inl e)
    then show ?thesis by (auto simp: list_all2_Cons1)
  next
    case (Inr r)
    then show ?thesis by (auto simp: Cons.IH list_all2_Cons1)
  qed
qed

lemma fold_labels_known:
  "set xs \<subseteq> set acc \<Longrightarrow> fold (\<lambda>l acc. if l \<in> set acc then acc else acc @ [l]) xs acc = acc"
  by (induction xs) auto

lemma fold_labels_new:
  "distinct xs \<Longrightarrow> set xs \<inter> set acc = {} \<Longrightarrow>
   fold (\<lambda>l acc. if l \<in> set acc then acc else acc @ [l]) xs acc = acc @ xs"
  by (induction xs arbitrary: acc) auto

lemma fold_labels_uniform:
  assumes "distinct ks" "\<forall>l\<in>set ls. l = ks \<or> l = []" "acc = ks \<or> acc = []"
  shows "fold (\<lambda>l acc. if l \<in> set acc then acc else acc @ [l]) (concat ls) acc =
           (if acc = ks \<or> ks \<in> set ls then ks else [])"
  using assms(2,3)
proof (induction ls arbitrary: acc)
  case Nil
  then show ?case by auto
next
  case (Cons l ls)
  let ?f = "\<lambda>l acc. if l \<in> set acc then acc else acc @ [l]"
  have step: "fold ?f l acc = (if acc = ks \<or> l = ks then ks else [])"
  proof (cases "l = ks")
    case True
    show ?thesis
    proof (cases "acc = ks")
      case True
      with \<open>l = ks\<close> show ?thesis using fold_labels_known[of l acc] by simp
    next
      case False
      with Cons.prems have "acc = []" by simp
      with \<open>l = ks\<close> assms(1) show ?thesis using fold_labels_new[of l "[]"] by simp
    qed
  next
    case False
    with Cons.prems have "l = []" by auto
    with Cons.prems False show ?thesis by auto
  qed
  have "fold ?f (concat (l # ls)) acc = fold ?f (concat ls) (fold ?f l acc)" by simp
  also have "\<dots> = (if fold ?f l acc = ks \<or> ks \<in> set ls then ks else [])"
    using Cons.prems step by (intro Cons.IH) auto
  also have "\<dots> = (if acc = ks \<or> ks \<in> set (l # ls) then ks else [])"
    using step Cons.prems by auto
  finally show ?case .
qed

lemma union_labels_uniform:
  "distinct ks \<Longrightarrow> \<forall>l\<in>set ls. l = ks \<or> l = [] \<Longrightarrow>
   union_labels ls = (if ks \<in> set ls then ks else [])"
  unfolding union_labels_def using fold_labels_uniform[of ks ls "[]"] by auto

lemma align_same: "distinct ks \<Longrightarrow> length r = length ks \<Longrightarrow> align ks ks r = r"
  unfolding align_def
  by (rule nth_equalityI) (simp_all add: map_of_zip_nth)

subsection \<open>Frames of recipe rows\<close>

lemma DataFrame_uniform:
  assumes "\<forall>d\<in>set rs. map fst d = ks" "distinct ks"
  shows "DataFrame rs =
           \<lparr>columns = (if rs = [] then [] else ks), index = [0 ..< length rs],
            rows = map (map snd) rs\<rparr>"
proof -
  have cols: "union_labels (map (map fst) rs) = (if rs = [] then [] else ks)"
  proof (cases rs)
    case Nil
    then show ?thesis by (simp add: union_labels_def)
  next
    case (Cons d ds)
    with assms(1) have "ks \<in> set (map (map fst) rs)" by auto
    moreover from assms(1) have "\<forall>l\<in>set (map (map fst) rs). l = ks \<or> l = []" by auto
    ultimately show ?thesis
      using union_labels_uniform[OF assms(2), of "map (map fst) rs"] Cons by simp
  qed
  have "map (\<lambda>d. align (if rs = [] then [] else ks) (map fst d) (map snd d)) rs = map (map snd) rs"
  proof (rule map_cong[OF refl])
    fix d assume d: "d \<in> set rs"
    then have "rs \<noteq> []" by auto
    moreover from d assms(1) have "map fst d = ks" by simp
    moreover from this have "length (map snd d) = length ks" by (metis length_map)
    ultimately show "align (if rs = [] then [] else ks) (map fst d) (map snd d) = map snd d"
      using assms(2) by (simp add: align_same)
  qed
  with cols show ?thesis by (simp add: DataFrame_def Let_def)
qed

lemma append_DataFrames:
  assumes "\<forall>rs\<in>set rss. \<forall>d\<in>set rs. map fst d = ks" "distinct ks"
  shows "append_dataframes (map DataFrame rss) = DataFrame (concat rss)"
proof -
  have each: "\<And>rs. rs \<in> set rss \<Longrightarrow> DataFrame rs =
      \<lparr>columns = (if rs = [] then [] else ks), index = [0 ..< length rs], rows = map (map snd) rs\<rparr>"
    using assms by (intro DataFrame_uniform) auto
  have all: "DataFrame (concat rss) =
      \<lparr>columns = (if concat rss = [] then [] else ks), index = [0 ..< length (concat rss)],
       rows = map (map snd) (concat rss)\<rparr>"
    using assms by (intro DataFrame_uniform) auto
  let ?cs = "union_labels (map columns (map DataFrame rss))"
  have cols: "?cs = (if concat rss = [] then [] else ks)"
  proof -
    have "\<forall>l\<in>set (map columns (map DataFrame rss)). l = ks \<or> l = []"
      using each by auto
    then have "?cs = (if ks \<in> set (map columns (map DataFrame rss)) then ks else [])"
      using union_labels_uniform[OF assms(2)] by blast
    moreover have "ks \<noteq> [] \<Longrightarrow>
        ks \<in> set (map columns (map DataFrame rss)) \<longleftrightarrow> concat rss \<noteq> []"
    proof -
      assume ne: "ks \<noteq> []"
      have "ks \<in> set (map columns (map DataFrame rss)) \<longleftrightarrow>
            (\<exists>rs\<in>set rss. columns (DataFrame rs) = ks)" by auto
      also have "\<dots> \<longleftrightarrow> (\<exists>rs\<in>set rss. rs \<noteq> [])"
        using each ne by (metis (mono_tags, lifting) frame.select_convs(1))
      finally show ?thesis by auto
    qed
    ultimately show ?thesis by (cases "ks = []") auto
  qed
  have rws: "concat (map (\<lambda>df. map (align ?cs (columns df)) (rows df)) (map DataFrame rss))
        = map (map snd) (concat rss)"
  proof -
    have per: "\<And>rs. rs \<in> set rss \<Longrightarrow>
        map (align ?cs (columns (DataFrame rs))) (rows (DataFrame rs)) = map (map snd) rs"
    proof -
      fix rs assume rs: "rs \<in> set rss"
      show "map (align ?cs (columns (DataFrame rs))) (rows (DataFrame rs)) = map (map snd) rs"
      proof (cases "rs = []")
        case True
        then show ?thesis using each[OF rs] by simp
      next
        case False
        with rs have "concat rss \<noteq> []" by auto
        with cols have c: "?cs = ks" by (simp only: if_False)
        have "map (align ks ks) (map (map snd) rs) = map (map snd) rs"
        proof (rule map_idI)
          fix r assume "r \<in> set (map (map snd) rs)"
          then obtain d where "d \<in> set rs" "r = map snd d" by auto
          with assms(1) rs have "length r = length ks" by (metis length_map)
          with assms(2) show "align ks ks r = r" by (simp add: align_same)
        qed
        with False c show ?thesis using each[OF rs] by simp
      qed
    qed
    have "map (\<lambda>df. map (align ?cs (columns df)) (rows df)) (map DataFrame rss)
        = map (\<lambda>rs. map (align ?cs (columns (DataFrame rs))) (rows (DataFrame rs))) rss"
      by (simp only: map_map o_def)
    also have "\<dots> = map (map (map snd)) rss"
      by (rule map_cong[OF refl]) (rule per)
    finally show ?thesis by (simp only: map_concat)
  qed
  have "append_dataframes (map DataFrame rss) =
      \<lparr>columns = ?cs,
       index = [0 ..< length (concat (map (\<lambda>df. map (align ?cs (columns df)) (rows df))
                                        (map DataFrame rss)))],
       rows = concat (map (\<lambda>df. map (align ?cs (columns df)) (rows df)) (map DataFrame rss))\<rparr>"
    by (simp only: append_dataframes_def Let_def)
  also have "\<dots> = \<lparr>columns = ?cs, index = [0 ..< length (map (map snd) (concat rss))],
       rows = map (map snd) (concat rss)\<rparr>"
    by (simp only: rws)
  also have "\<dots> = DataFrame (concat rss)"
    by (simp only: cols all length_map)
  finally show ?thesis .
qed

lemma scrape_recipes_info_Inr:
  "scrape_recipes_info w urls ty = Inr df \<longleftrightarrow>
   (\<exists>rs. list_all2 (\<lambda>url r. recipe_record w ty url = Inr r) urls rs \<and> df = DataFrame rs)"
proof -
  have "scrape_recipes_info w urls ty = Inr df \<longleftrightarrow>
        (\<exists>rs. recipes_info_loop w urls ty [] = Inr rs \<and> df = DataFrame rs)"
    by (cases "recipes_info_loop w urls ty []") (auto simp: scrape_recipes_info_def)
  then show ?thesis by (simp add: recipes_info_loop_Inr)
qed

lemma batch_keys:
  "list_all2 (\<lambda>url r. recipe_record w ty url = Inr r) urls rs \<Longrightarrow>
   \<forall>d\<in>set rs. map fst d = record_labels"
  by (induction rule: list_all2_induct) (auto dest: recipe_record_keys)

lemma create_database_Inr:
  "create_database w = Inr df \<longleftrightarrow>
   (\<exists>l1 l2 l3 r1 r2 r3.
      scrape_recipe_links w (Some url_entree) = Inr l1 \<and>
      scrape_recipe_links w (Some url_plat) = Inr l2 \<and>
      scrape_recipe_links w (Some url_dessert) = Inr l3 \<and>
      list_all2 (\<lambda>url r. recipe_record w (recipe_type url_entree) url = Inr r) l1 r1 \<and>
      list_all2 (\<lambda>url r. recipe_record w (recipe_type url_plat) url = Inr r) l2 r2 \<and>
      list_all2 (\<lambda>url r. recipe_record w (recipe_type url_dessert) url = Inr r) l3 r3 \<and>
      df = DataFrame (r1 @ r2 @ r3))"
  (is "?L \<longleftrightarrow> ?R")
proof
  assume ?L
  then obtain l1 l2 l3 d1 d2 d3 where
    l: "scrape_recipe_links w (Some url_entree) = Inr l1"
       "scrape_recipe_links w (Some url_plat) = Inr l2"
       "scrape_recipe_links w (Some url_dessert) = Inr l3"
    and d: "scrape_recipes_info w l1 (recipe_type url_entree) = Inr d1"
       "scrape_recipes_info w l2 (recipe_type url_plat) = Inr d2"
       "scrape_recipes_info w l3 (recipe_type url_dessert) = Inr d3"
    and df: "df = append_dataframes [d1, d2, d3]"
    by (auto simp: create_database_def split: sum.splits)
  from d obtain r1 r2 r3 where
    r: "list_all2 (\<lambda>url r. recipe_record w (recipe_type url_entree) url = Inr r) l1 r1"
       "list_all2 (\<lambda>url r. recipe_record w (recipe_type url_plat) url = Inr r) l2 r2"
       "list_all2 (\<lambda>url r. recipe_record w (recipe_type url_dessert) url = Inr r) l3 r3"
    and e: "d1 = DataFrame r1" "d2 = DataFrame r2" "d3 = DataFrame r3"
    by (auto simp: scrape_recipes_info_Inr)
  have "append_dataframes (map DataFrame [r1, r2, r3]) = DataFrame (concat [r1, r2, r3])"
    using batch_keys[OF r(1)] batch_keys[OF r(2)] batch_keys[OF r(3)] labels_distinct
    by (intro append_DataFrames[of _ record_labels]) auto
  with df e have "df = DataFrame (r1 @ r2 @ r3)" by simp
  with l r show ?R by blast
next
  assume ?R
  then obtain l1 l2 l3 r1 r2 r3 where
    l: "scrape_recipe_links w (Some url_entree) = Inr l1"
       "scrape_recipe_links w (Some url_plat) = Inr l2"
       "scrape_recipe_links w (Some url_dessert) = Inr l3"
    and r: "list_all2 (\<lambda>url r. recipe_record w (recipe_type url_entree) url = Inr r) l1 r1"
       "list_all2 (\<lambda>url r. recipe_record w (recipe_type url_plat) url = Inr r) l2 r2"
       "list_all2 (\<lambda>url r. recipe_record w (recipe_type url_dessert) url = Inr r) l3 r3"
    and df: "df = DataFrame (r1 @ r2 @ r3)"
    by blast
  have "append_dataframes (map DataFrame [r1, r2, r3]) = DataFrame (concat [r1, r2, r3])"
    using batch_keys[OF r(1)] batch_keys[OF r(2)] batch_keys[OF r(3)] labels_distinct
    by (intro append_DataFrames[of _ record_labels]) auto
  moreover have "scrape_recipes_info w l1 (recipe_type url_entree) = Inr (DataFrame r1)"
    "scrape_recipes_info w l2 (recipe_type url_plat) = Inr (DataFrame r2)"
    "scrape_recipes_info w l3 (recipe_type url_dessert) = Inr (DataFrame r3)"
    using r by (auto simp: scrape_recipes_info_Inr)
  ultimately show ?L using l df by (simp add: create_database_def)
qed

subsection \<open>Rows and columns\<close>

lemma first_Inr_iff: "(\<exists>c. first xs = Inr c) \<longleftrightarrow> xs \<noteq> []"
  by (cases xs) (auto simp: first_def)

lemma recipe_record_Inr_iff:
  "(\<exists>r. recipe_record w ty url = Inr r) \<longleftrightarrow>
   (\<exists>d. scrape_recipe_data w url = Inr d \<and> py_split (recipe_comments d) \<noteq> [])"
proof (cases "scrape_recipe_data w url")
  case (Inl e)
  then show ?thesis by (simp add: recipe_record_def)
next
  case (Inr d)
  then show ?thesis
    using first_Inr_iff[of "py_split (recipe_comments d)"]
    by (cases "first (py_split (recipe_comments d))") (auto simp: recipe_record_def)
qed

lemma recipe_record_cells:
  assumes "recipe_record w ty url = Inr r"
  shows "\<exists>d c. scrape_recipe_data w url = Inr d \<and> first (py_split (recipe_comments d)) = Inr c \<and>
           r = [(str ''Recipe Type'', cell_of ty),
                (str ''Recipe Name'', CStr (recipe_name d)),
                (str ''Rating'', CStr (recipe_rate d)),
                (str ''Comments'', CStr c),
                (str ''Difficulty'', CStr (recipe_difficulty d)),
                (str ''Timer'', CStr (recipe_timer d)),
                (str ''Ingredients'', CDict (ingredients_dict d)),
                (str ''URL'', cell_of url)]"
  using assms by (auto simp: recipe_record_def split: sum.splits)

lemma recipe_record_type: "recipe_record w ty url = Inr r \<Longrightarrow> map_of r (str ''Recipe Type'') = Some (cell_of ty)"
  by (drule recipe_record_cells) (auto simp: str_eq_iff)

lemma recipe_record_url: "recipe_record w ty url = Inr r \<Longrightarrow> map_of r (str ''URL'') = Some (cell_of url)"
  by (drule recipe_record_cells) (auto simp: str_eq_iff)

lemma recipe_record_comments:
  "recipe_record w ty url = Inr r \<Longrightarrow> scrape_recipe_data w url = Inr d \<Longrightarrow>
   first (py_split (recipe_comments d)) = Inr c \<Longrightarrow>
   map_of r (str ''Comments'') = Some (CStr c)"
  by (drule recipe_record_cells) (auto simp: str_eq_iff)

lemma batch_exists_iff:
  "(\<exists>rs. list_all2 (\<lambda>url r. f url = Inr r) urls rs) \<longleftrightarrow> (\<forall>url\<in>set urls. \<exists>r. f url = Inr r)"
proof (induction urls)
  case Nil
  then show ?case by simp
next
  case (Cons u urls)
  then show ?case by (auto simp: list_all2_Cons1) 
qed

lemma batch_length:
  "list_all2 (\<lambda>url r. recipe_record w ty url = Inr r) urls rs \<Longrightarrow> length rs = length urls"
  by (simp add: list_all2_lengthD)

lemma batch_types:
  "list_all2 (\<lambda>url r. recipe_record w ty url = Inr r) urls rs \<Longrightarrow>
   map (\<lambda>d. map_of d (str ''Recipe Type'')) rs = replicate (length urls) (Some (cell_of ty))"
  by (induction rule: list_all2_induct) (auto dest: recipe_record_type)

lemma batch_urls:
  "list_all2 (\<lambda>url r. recipe_record w ty url = Inr r) urls rs \<Longrightarrow>
   map (\<lambda>d. map_of d (str ''URL'')) rs = map (\<lambda>u. Some (cell_of u)) urls"
  by (induction rule: list_all2_induct) (auto dest: recipe_record_url)

lemma DataFrame_records:
  assumes "\<forall>d\<in>set rs. map fst d = record_labels"
  shows "columns (DataFrame rs) = (if rs = [] then [] else record_labels)"
    and "index (DataFrame rs) = [0 ..< length rs]"
    and "rows (DataFrame rs) = map (map snd) rs"
  using DataFrame_uniform[OF assms labels_distinct] by simp_all

lemma column_values_records:
  assumes "\<forall>d\<in>set rs. map fst d = record_labels"
  shows "column_values (DataFrame rs) c = map (\<lambda>d. map_of d c) rs"
proof (cases "rs = []")
  case True
  then show ?thesis using DataFrame_records[OF assms] by (simp add: column_values_def)
next
  case False
  have "map (\<lambda>r. map_of (zip record_labels r) c) (map (map snd) rs) = map (\<lambda>d. map_of d c) rs"
  proof -
    have "\<And>d. d \<in> set rs \<Longrightarrow> map_of (zip record_labels (map snd d)) c = map_of d c"
    proof -
      fix d assume "d \<in> set rs"
      with assms have "zip record_labels (map snd d) = zip (map fst d) (map snd d)" by simp
      then show "map_of (zip record_labels (map snd d)) c = map_of d c"
        by (simp only: zip_map_fst_snd)
    qed
    then show ?thesis by (simp cong: map_cong)
  qed
  with False show ?thesis using DataFrame_records[OF assms] by (simp add: column_values_def)
qed

subsection \<open>The example sites\<close>

lemmas crit_defs = rating_text_def comment_icon_def reviews_anchor_def difficulty_icon_def
  timer_icon_def card_ingredient_def count_span_def recipe_card_link_def
  has_class_def attr_is_def has_attr_def py_split_def isspace_def str_def

lemmas search_defs = find_in_def find_all_def find_tag_def find_next_def descendants_def
  text_strip_def py_strip_def

lemmas ex_defs = ex_document_def ex_card_def ex_listing_def ex_heading_def ex_rating_def
  ex_comments_def ex_difficulty_def ex_timer_def ex_ingredient_def avis_42_def

lemma ex_urls_fresh:
  "u \<in> {ex_url1, ex_url2, ex_url3} \<Longrightarrow> u \<notin> {url_entree, url_plat, url_dessert}"
  by (auto simp: ex_url1_def ex_url2_def ex_url3_def url_entree_def url_plat_def url_dessert_def
        str_eq_iff)

lemma ex_listing_links:
  "map (\<lambda>link. attr_get (fst link) (str ''href'')) (find_all recipe_card_link (ex_listing hs))
     = map Some hs"
proof -
  have card: "\<And>h. recipe_card_link (ex_card h)"
    by (simp add: ex_card_def crit_defs)
  have href: "\<And>h. attr_get (ex_card h) (str ''href'') = Some h"
    by (simp add: ex_card_def str_def)
  have pre: "\<And>h. preorder (ex_card h) = [ex_card h]"
    by (simp add: ex_card_def)
  have cards: "\<And>hs. map fst (find_all_in recipe_card_link (concat (map preorder (map ex_card hs))))
      = map ex_card hs"
    subgoal for hs by (induction hs) (simp_all add: pre card)
    done
  have "map fst (find_all recipe_card_link (ex_listing hs)) = map ex_card hs"
    using cards[of hs]
    by (simp add: find_all_def descendants_def ex_listing_def ex_document_def crit_defs)
  then have "map (\<lambda>a. attr_get a (str ''href'')) (map fst (find_all recipe_card_link (ex_listing hs)))
      = map (\<lambda>a. attr_get a (str ''href'')) (map ex_card hs)" by simp
  then show ?thesis by (simp add: href o_def)
qed

lemma ex_site_with_links:
  "scrape_recipe_links (ex_site_with p) (Some url_entree) = Inr [Some ex_url1, Some ex_url2]"
  "scrape_recipe_links (ex_site_with p) (Some url_plat) = Inr [Some ex_url3]"
  "scrape_recipe_links (ex_site_with p) (Some url_dessert) = Inr [Some ex_url1, Some ex_url2, Some ex_url3]"
  using urls_distinct
  by (simp_all add: scrape_recipe_links_def get_soup_def ex_site_with_def ex_listing_links)

lemma ex_site_with_page:
  "u \<in> {ex_url1, ex_url2, ex_url3} \<Longrightarrow> scrape_recipe_data (ex_site_with p) (Some u) = recipe_of_soup p"
  using ex_urls_fresh[of u]
  by (simp add: scrape_recipe_data_def get_soup_def ex_site_with_def)

section \<open>The claims\<close>

lemma recipe_card_link_iff:
  "recipe_card_link x \<longleftrightarrow>
     is_tag (str ''a'') x \<and>
     (\<exists>v. attr_get x (str ''class'') = Some v \<and> str ''recipe-card-link'' \<in> set (py_split v))"
proof -
  have "str ''recipe-card-link'' \<noteq> []" "\<forall>c\<in>set (str ''recipe-card-link''). \<not> isspace c"
    by (simp_all add: str_def isspace_def)
  then show ?thesis by (simp add: recipe_card_link_def has_class_token)
qed

text \<open>
  C2: a listing page with \<open>N\<close> anchors of class \<open>recipe-card-link\<close> gives exactly \<open>N\<close>
  links, in document order; the entry of an anchor is its \<open>href\<close>, and \<open>None\<close> exactly
  when the anchor has none. Nothing is filtered out and nothing fails.
\<close>

theorem scrape_recipe_links_all:
  assumes "w url = Inr soup"
  shows "\<exists>links. scrape_recipe_links w (Some url) = Inr links \<and>
           length links = length (filter recipe_card_link (descendants soup)) \<and>
           (\<forall>i < length links.
              links ! i = attr_get (filter recipe_card_link (descendants soup) ! i) (str ''href'') \<and>
              (links ! i = None \<longleftrightarrow>
                 \<not> has_attr (str ''href'') (filter recipe_card_link (descendants soup) ! i)))"
proof -
  let ?as = "filter recipe_card_link (descendants soup)"
  have "map (\<lambda>link. attr_get (fst link) (str ''href'')) (find_all recipe_card_link soup)
        = map (\<lambda>a. attr_get a (str ''href'')) (map fst (find_all recipe_card_link soup))"
    by (simp add: o_def)
  also have "\<dots> = map (\<lambda>a. attr_get a (str ''href'')) ?as"
    by (simp only: find_all_def find_all_in_fst)
  finally have "scrape_recipe_links w (Some url) = Inr (map (\<lambda>a. attr_get a (str ''href'')) ?as)"
    using assms by (simp add: scrape_recipe_links_def get_soup_def)
  then show ?thesis by (simp add: has_attr_def)
qed

theorem scrape_recipe_links_all_witness:
  "ex_links_site url_entree = Inr ex_links_page \<and>
   scrape_recipe_links ex_links_site (Some url_entree) = Inr [Some ex_url1, None, Some ex_url2] \<and>
   length (filter recipe_card_link (descendants ex_links_page)) = 3"
proof -
  have page: "ex_links_site url_entree = Inr ex_links_page"
    by (simp add: ex_links_site_def)
  have run: "scrape_recipe_links ex_links_site (Some url_entree) = Inr [Some ex_url1, None, Some ex_url2]"
    by (simp add: scrape_recipe_links_def get_soup_def ex_links_site_def ex_links_page_def
          ex_defs crit_defs search_defs)
  from scrape_recipe_links_all [of ex_links_site url_entree ex_links_page] run page
  show ?thesis by auto
qed

text \<open>
  C3: \<open>recipe_type\<close> gives each of the three listing URLs its label, and no label for
  any other string.
\<close>

theorem recipe_type_closed:
  "recipe_type url_entree = Some (str ''entree'') \<and>
   recipe_type url_plat = Some (str ''plat'') \<and>
   recipe_type url_dessert = Some (str ''dessert'') \<and>
   (url \<notin> {url_entree, url_plat, url_dessert} \<longrightarrow> recipe_type url = None)"
  using urls_distinct by (simp add: recipe_type_def)

theorem recipe_type_closed_witness:
  "ex_url1 \<notin> {url_entree, url_plat, url_dessert} \<and> recipe_type ex_url1 = None"
proof -
  have "ex_url1 \<notin> {url_entree, url_plat, url_dessert}"
    using ex_urls_fresh[of ex_url1] by simp
  with recipe_type_closed [of ex_url1] show ?thesis by blast
qed

lemma no_blocks: "filter card_ingredient (descendants soup) = [] \<Longrightarrow> ingredient_blocks soup = []"
  using find_all_in_fst[of card_ingredient "descendants soup"]
  by (simp add: ingredient_blocks_def find_all_def)

lemma scrape_recipe_data_page: "w url = Inr soup \<Longrightarrow> scrape_recipe_data w (Some url) = recipe_of_soup soup"
  by (simp add: scrape_recipe_data_def get_soup_def)

text \<open>
  C10: a page that carries the heading, the rating, and the three icons with what follows
  them, but no ingredient block, is scraped without failure, and its ingredients
  dictionary is empty.
\<close>

theorem no_ingredients_no_failure:
  assumes "w url = Inr soup" "fields_present soup"
    and "filter card_ingredient (descendants soup) = []"
  shows "\<exists>d. scrape_recipe_data w (Some url) = Inr d \<and> ingredients_dict d = []"
proof -
  from assms(3) have blocks: "ingredient_blocks soup = []" by (rule no_blocks)
  then have "markers_present soup"
    using assms(2) by (simp add: markers_present_def quantities_present_def)
  then obtain d where d: "recipe_of_soup soup = Inr d"
    using recipe_of_soup_Inr_iff by blast
  from recipe_of_soup_result(6)[OF d] blocks have "ingredients_dict d = []" by simp
  with d assms(1) show ?thesis by (simp add: scrape_recipe_data_page)
qed

lemma ex_recipe_bare_data:
  "recipe_of_soup ex_recipe_bare =
     Inr \<lparr>recipe_name = str ''Tarte'', recipe_rate = str ''4.8/5'', recipe_comments = avis_42,
          recipe_difficulty = str ''facile'', recipe_timer = str ''1 h'', ingredients_dict = []\<rparr>"
  by (simp add: recipe_of_soup_def ex_recipe_bare_def ex_defs crit_defs search_defs)

theorem no_ingredients_no_failure_witness:
  "ex_site_with ex_recipe_bare ex_url1 = Inr ex_recipe_bare \<and>
   fields_present ex_recipe_bare \<and>
   filter card_ingredient (descendants ex_recipe_bare) = [] \<and>
   (\<exists>d. scrape_recipe_data (ex_site_with ex_recipe_bare) (Some ex_url1) = Inr d \<and>
        ingredients_dict d = [])"
proof -
  have page: "ex_site_with ex_recipe_bare ex_url1 = Inr ex_recipe_bare"
    using ex_urls_fresh[of ex_url1] by (simp add: ex_site_with_def)
  have "markers_present ex_recipe_bare"
    using recipe_of_soup_Inr_iff[of ex_recipe_bare] ex_recipe_bare_data by simp
  then have fields: "fields_present ex_recipe_bare" by (simp add: markers_present_def)
  have none: "filter card_ingredient (descendants ex_recipe_bare) = []"
    by (simp add: ex_recipe_bare_def ex_defs crit_defs descendants_def)
  from no_ingredients_no_failure [of "ex_site_with ex_recipe_bare" ex_url1 ex_recipe_bare,
      OF page fields none] page fields none
  show ?thesis by simp
qed

lemma scrape_recipes_info_all_pages:
  assumes "scrape_recipes_info w urls ty = Inr df" "url \<in> set urls"
  shows "\<exists>d. scrape_recipe_data w url = Inr d \<and> py_split (recipe_comments d) \<noteq> []"
proof -
  from assms(1) obtain rs where "list_all2 (\<lambda>url r. recipe_record w ty url = Inr r) urls rs"
    by (auto simp: scrape_recipes_info_Inr)
  then have "\<exists>rs. list_all2 (\<lambda>url r. recipe_record w ty url = Inr r) urls rs" ..
  then have "\<forall>url\<in>set urls. \<exists>r. recipe_record w ty url = Inr r"
    by (simp only: batch_exists_iff)
  with assms(2) have "\<exists>r. recipe_record w ty url = Inr r" by blast
  then show ?thesis by (simp only: recipe_record_Inr_iff)
qed

lemma scrape_recipes_info_Inr_iff:
  "(\<exists>df. scrape_recipes_info w urls ty = Inr df) \<longleftrightarrow>
   (\<forall>url\<in>set urls. \<exists>d. scrape_recipe_data w url = Inr d \<and> py_split (recipe_comments d) \<noteq> [])"
proof -
  have "(\<exists>df. scrape_recipes_info w urls ty = Inr df) \<longleftrightarrow>
        (\<exists>rs. list_all2 (\<lambda>url r. recipe_record w ty url = Inr r) urls rs)"
    by (auto simp: scrape_recipes_info_Inr)
  then show ?thesis by (simp only: batch_exists_iff recipe_record_Inr_iff)
qed

lemma create_database_batches:
  assumes "create_database w = Inr df"
  shows "\<exists>l1 l2 l3.
           scrape_recipe_links w (Some url_entree) = Inr l1 \<and>
           scrape_recipe_links w (Some url_plat) = Inr l2 \<and>
           scrape_recipe_links w (Some url_dessert) = Inr l3 \<and>
           (\<forall>url\<in>set (l1 @ l2 @ l3).
              \<exists>d. scrape_recipe_data w url = Inr d \<and> py_split (recipe_comments d) \<noteq> [])"
proof -
  from assms obtain l1 l2 l3 d1 d2 d3 where
    l: "scrape_recipe_links w (Some url_entree) = Inr l1"
       "scrape_recipe_links w (Some url_plat) = Inr l2"
       "scrape_recipe_links w (Some url_dessert) = Inr l3"
    and d: "scrape_recipes_info w l1 (recipe_type url_entree) = Inr d1"
       "scrape_recipes_info w l2 (recipe_type url_plat) = Inr d2"
       "scrape_recipes_info w l3 (recipe_type url_dessert) = Inr d3"
    by (auto simp: create_database_def split: sum.splits)
  from d have "\<forall>url\<in>set (l1 @ l2 @ l3).
      \<exists>d. scrape_recipe_data w url = Inr d \<and> py_split (recipe_comments d) \<noteq> []"
    using scrape_recipes_info_all_pages by (metis Un_iff set_append)
  with l show ?thesis by blast
qed

lemma run_failed: "create_database w = Inl e \<Longrightarrow> run w fs = (Some e, fs)"
  by (simp add: run_def)

text \<open>
  C4: when a recipe page lacks one of the expected markers, \<open>scrape_recipe_data\<close> fails
  on it with \<open>AttributeError\<close>, no field being defaulted. The failure goes through
  \<open>scrape_recipes_info\<close> for any batch that has the link, and when one of the three
  listings has the link the whole run fails and leaves the files as they were, so the
  output has no row of that recipe, nor any other.
\<close>

theorem missing_marker_aborts:
  assumes "w u = Inr soup" "\<not> markers_present soup"
  shows "scrape_recipe_data w (Some u) = Inl AttributeError \<and>
         (Some u \<in> set urls \<longrightarrow> (\<exists>e. scrape_recipes_info w urls ty = Inl e)) \<and>
         ((\<exists>l. Some u \<in> set l \<and>
               (scrape_recipe_links w (Some url_entree) = Inr l \<or>
                scrape_recipe_links w (Some url_plat) = Inr l \<or>
                scrape_recipe_links w (Some url_dessert) = Inr l)) \<longrightarrow>
          (\<exists>e. create_database w = Inl e \<and> run w fs = (Some e, fs)))"
proof -
  have page: "scrape_recipe_data w (Some u) = Inl AttributeError"
    using assms by (simp add: scrape_recipe_data_page recipe_of_soup_fail)
  have batch: "\<exists>e. scrape_recipes_info w urls ty = Inl e" if "Some u \<in> set urls"
  proof (cases "scrape_recipes_info w urls ty")
    case (Inl e)
    then show ?thesis by blast
  next
    case (Inr df)
    from scrape_recipes_info_all_pages[OF Inr that] page show ?thesis by simp
  qed
  have whole: "\<exists>e. create_database w = Inl e \<and> run w fs = (Some e, fs)"
    if "Some u \<in> set l"
      and "scrape_recipe_links w (Some url_entree) = Inr l \<or>
           scrape_recipe_links w (Some url_plat) = Inr l \<or>
           scrape_recipe_links w (Some url_dessert) = Inr l" for l
  proof (cases "create_database w")
    case (Inl e)
    then show ?thesis by (simp add: run_failed)
  next
    case (Inr df)
    from create_database_batches[OF Inr] obtain l1 l2 l3 where
      l: "scrape_recipe_links w (Some url_entree) = Inr l1"
         "scrape_recipe_links w (Some url_plat) = Inr l2"
         "scrape_recipe_links w (Some url_dessert) = Inr l3"
      and ok: "\<forall>url\<in>set (l1 @ l2 @ l3).
         \<exists>d. scrape_recipe_data w url = Inr d \<and> py_split (recipe_comments d) \<noteq> []"
      by blast
    from that l have "Some u \<in> set (l1 @ l2 @ l3)" by auto
    with ok obtain d where "scrape_recipe_data w (Some u) = Inr d" by blast
    with page show ?thesis by simp
  qed
  from page batch whole show ?thesis by blast
qed

lemma ex_no_difficulty: "\<not> has_marker difficulty_icon ex_recipe_no_difficulty"
  by (simp add: has_marker_def ex_recipe_no_difficulty_def ex_defs crit_defs descendants_def)

lemma ex_no_difficulty_markers: "\<not> markers_present ex_recipe_no_difficulty"
proof -
  from ex_no_difficulty have "find_tag difficulty_icon ex_recipe_no_difficulty = None"
    by (simp add: find_tag_None)
  then have "\<not> has_marker_then difficulty_icon (is_tag (str ''span'')) ex_recipe_no_difficulty"
    by (simp add: has_marker_then_def)
  then show ?thesis by (simp add: markers_present_def fields_present_def)
qed

theorem missing_marker_aborts_witness:
  "ex_site_broken ex_url1 = Inr ex_recipe_no_difficulty \<and>
   \<not> markers_present ex_recipe_no_difficulty \<and>
   scrape_recipe_links ex_site_broken (Some url_entree) = Inr [Some ex_url1, Some ex_url2] \<and>
   scrape_recipe_data ex_site_broken (Some ex_url1) = Inl AttributeError \<and>
   (\<exists>e. scrape_recipes_info ex_site_broken [Some ex_url1, Some ex_url2] (recipe_type url_entree) = Inl e) \<and>
   (\<exists>e. create_database ex_site_broken = Inl e \<and> run ex_site_broken no_files = (Some e, no_files))"
proof -
  have page: "ex_site_broken ex_url1 = Inr ex_recipe_no_difficulty"
    using ex_urls_fresh[of ex_url1] by (simp add: ex_site_broken_def ex_site_with_def)
  have links: "scrape_recipe_links ex_site_broken (Some url_entree) = Inr [Some ex_url1, Some ex_url2]"
    by (simp add: ex_site_broken_def ex_site_with_links)
  note abort = missing_marker_aborts [of ex_site_broken ex_url1 ex_recipe_no_difficulty
      "[Some ex_url1, Some ex_url2]" "recipe_type url_entree" no_files,
      OF page ex_no_difficulty_markers]
  from abort have data: "scrape_recipe_data ex_site_broken (Some ex_url1) = Inl AttributeError"
    by blast
  from abort have batch:
    "\<exists>e. scrape_recipes_info ex_site_broken [Some ex_url1, Some ex_url2] (recipe_type url_entree) = Inl e"
    by simp
  have "\<exists>l. Some ex_url1 \<in> set l \<and>
          (scrape_recipe_links ex_site_broken (Some url_entree) = Inr l \<or>
           scrape_recipe_links ex_site_broken (Some url_plat) = Inr l \<or>
           scrape_recipe_links ex_site_broken (Some url_dessert) = Inr l)"
    using links by (intro exI[of _ "[Some ex_url1, Some ex_url2]"]) simp
  with abort have whole:
    "\<exists>e. create_database ex_site_broken = Inl e \<and> run ex_site_broken no_files = (Some e, no_files)"
    by blast
  from page ex_no_difficulty_markers links data batch whole show ?thesis by blast
qed

lemma names_card:
  assumes "\<forall>b\<in>set tags. block_name b \<noteq> None"
  shows "card {k. \<exists>b\<in>set tags. block_name b = Some k} \<le> length tags"
    and "distinct (map block_name tags) \<Longrightarrow>
         card {k. \<exists>b\<in>set tags. block_name b = Some k} = length tags"
proof -
  let ?K = "{k. \<exists>b\<in>set tags. block_name b = Some k}"
  have img: "Some ` ?K = set (map block_name tags)"
  proof
    show "Some ` ?K \<subseteq> set (map block_name tags)" by force
    show "set (map block_name tags) \<subseteq> Some ` ?K"
    proof
      fix x assume "x \<in> set (map block_name tags)"
      then obtain b where b: "b \<in> set tags" "x = block_name b" by auto
      with assms obtain k where "block_name b = Some k" by blast
      with b show "x \<in> Some ` ?K" by blast
    qed
  qed
  have "card ?K = card (Some ` ?K)" by (simp add: card_image)
  with img have eq: "card ?K = card (set (map block_name tags))" by simp
  then show "card ?K \<le> length tags"
    using card_length[of "map block_name tags"] by simp
  show "card ?K = length tags" if "distinct (map block_name tags)"
    using eq distinct_card[OF that] by simp
qed

lemma ingredients_size:
  assumes "ingredients_loop (ingredient_blocks soup) [] = Inr dict"
  shows "length dict = card {k. \<exists>b\<in>set (ingredient_blocks soup). block_name b = Some k}"
proof -
  from assms have "distinct (map fst dict)" by (rule ingredients_loop_distinct) simp
  then have "length dict = card (fst ` set dict)"
    using distinct_card[of "map fst dict"] by simp
  with ingredients_loop_keys[OF assms] show ?thesis by simp
qed

lemma py_strip_blank: "py_strip t \<noteq> [] \<longleftrightarrow> \<not> blank t"
  by (simp add: py_strip_Nil_iff blank_def list_all_iff)

lemma text_strip_raw:
  assumes "text_strip (find_tag P soup) = Inr s"
  shows "\<exists>t. marker_text P soup = Some t \<and> s = py_strip t \<and> (s \<noteq> [] \<longleftrightarrow> \<not> blank t)"
proof (cases "find_tag P soup")
  case None
  with assms show ?thesis by (simp add: text_strip_def)
next
  case (Some e)
  with assms have "s = py_strip (get_text (fst e))" by (simp add: text_strip_def)
  with Some show ?thesis by (simp add: marker_text_def py_strip_blank)
qed

lemma next_text_raw:
  assumes "next_text P Q soup = Inr s"
  shows "\<exists>t. marker_then_text P Q soup = Some t \<and> s = py_strip t \<and> (s \<noteq> [] \<longleftrightarrow> \<not> blank t)"
proof (cases "find_tag P soup")
  case None
  with assms show ?thesis by (simp add: next_text_def)
next
  case (Some m)
  show ?thesis
  proof (cases "find_next Q m")
    case None
    with Some assms show ?thesis by (simp add: next_text_def text_strip_def)
  next
    case e: (Some e)
    with Some assms have "s = py_strip (get_text (fst e))"
      by (simp add: next_text_def text_strip_def)
    with Some e show ?thesis by (simp add: marker_then_text_def py_strip_blank)
  qed
qed

text \<open>
  C7, as the code has it: on a page with every expected marker, \<open>scrape_recipe_data\<close>
  returns name, rating, difficulty and timer as the stripped text of their elements, with
  no whitespace at either end, and each of them non-empty exactly when the text of its
  element is not blank. The ingredients dictionary has one entry per distinct ingredient
  name: at most as many entries as there are ingredient blocks, and exactly as many when
  no two blocks share a name.
\<close>

theorem all_markers_result:
  assumes "w url = Inr soup" "markers_present soup"
  shows "\<exists>d. scrape_recipe_data w (Some url) = Inr d \<and>
           trimmed (recipe_name d) \<and> trimmed (recipe_rate d) \<and>
           trimmed (recipe_difficulty d) \<and> trimmed (recipe_timer d) \<and>
           (\<exists>t. marker_text (is_tag (str ''h1'')) soup = Some t \<and>
                recipe_name d = py_strip t \<and> (recipe_name d \<noteq> [] \<longleftrightarrow> \<not> blank t)) \<and>
           (\<exists>t. marker_text rating_text soup = Some t \<and>
                recipe_rate d = py_strip t \<and> (recipe_rate d \<noteq> [] \<longleftrightarrow> \<not> blank t)) \<and>
           (\<exists>t. marker_then_text difficulty_icon (is_tag (str ''span'')) soup = Some t \<and>
                recipe_difficulty d = py_strip t \<and> (recipe_difficulty d \<noteq> [] \<longleftrightarrow> \<not> blank t)) \<and>
           (\<exists>t. marker_then_text timer_icon (is_tag (str ''span'')) soup = Some t \<and>
                recipe_timer d = py_strip t \<and> (recipe_timer d \<noteq> [] \<longleftrightarrow> \<not> blank t)) \<and>
           length (ingredients_dict d) =
             card {k. \<exists>b\<in>set (ingredient_blocks soup). block_name b = Some k} \<and>
           length (ingredients_dict d) \<le> length (filter card_ingredient (descendants soup)) \<and>
           (distinct (map block_name (ingredient_blocks soup)) \<longrightarrow>
              length (ingredients_dict d) = length (filter card_ingredient (descendants soup)))"
proof -
  from assms(2) obtain d where d: "recipe_of_soup soup = Inr d"
    using recipe_of_soup_Inr_iff by blast
  note r = recipe_of_soup_result[OF d]
  have blocks: "length (ingredient_blocks soup) = length (filter card_ingredient (descendants soup))"
    using find_all_in_fst[of card_ingredient "descendants soup"]
    by (metis ingredient_blocks_def find_all_def length_map)
  have names: "\<forall>b\<in>set (ingredient_blocks soup). block_name b \<noteq> None"
    using block_name_present by blast
  have t: "trimmed (recipe_name d)" "trimmed (recipe_rate d)"
    "trimmed (recipe_difficulty d)" "trimmed (recipe_timer d)"
    using r(1,2,4,5) by (auto dest: text_strip_trimmed next_text_trimmed)
  note f1 = text_strip_raw[OF r(1)] and f2 = text_strip_raw[OF r(2)]
    and f3 = next_text_raw[OF r(4)] and f4 = next_text_raw[OF r(5)]
  note n = ingredients_size[OF r(6)]
  have le: "length (ingredients_dict d) \<le> length (filter card_ingredient (descendants soup))"
    using n names_card(1)[OF names] blocks by simp
  have eq: "distinct (map block_name (ingredient_blocks soup)) \<longrightarrow>
      length (ingredients_dict d) = length (filter card_ingredient (descendants soup))"
    using n names_card(2)[OF names] blocks by simp
  have sd: "scrape_recipe_data w (Some url) = Inr d"
    using d assms(1) by (simp add: scrape_recipe_data_page)
  show ?thesis
    by (rule exI[of _ d], intro conjI) (rule sd t f1 f2 f3 f4 n le eq)+
qed

lemma ex_recipe_data:
  "recipe_of_soup ex_recipe =
     Inr \<lparr>recipe_name = str ''Tarte'', recipe_rate = str ''4.8/5'', recipe_comments = avis_42,
          recipe_difficulty = str ''facile'', recipe_timer = str ''1 h'',
          ingredients_dict = [(str ''sucre'', str ''100''), (str ''farine'', str ''250'')]\<rparr>"
  by (simp add: recipe_of_soup_def ex_recipe_def ex_defs crit_defs search_defs)

lemma ex_site_page: "ex_site ex_url1 = Inr ex_recipe"
  using ex_urls_fresh[of ex_url1] by (simp add: ex_site_def ex_site_with_def)

theorem all_markers_result_witness:
  "ex_site ex_url1 = Inr ex_recipe \<and> markers_present ex_recipe \<and>
   marker_text (is_tag (str ''h1'')) ex_recipe = Some (str '' Tarte '') \<and>
   \<not> blank (str '' Tarte '') \<and>
   (\<exists>d. scrape_recipe_data ex_site (Some ex_url1) = Inr d \<and>
        recipe_name d = str ''Tarte'' \<and> recipe_name d \<noteq> [] \<and> trimmed (recipe_name d) \<and>
        length (ingredients_dict d) = 2 \<and>
        length (filter card_ingredient (descendants ex_recipe)) = 2)"
proof -
  have m: "markers_present ex_recipe"
    using recipe_of_soup_Inr_iff[of ex_recipe] ex_recipe_data by simp
  have d: "scrape_recipe_data ex_site (Some ex_url1) = recipe_of_soup ex_recipe"
    using ex_site_page by (rule scrape_recipe_data_page)
  have b: "distinct (map block_name (ingredient_blocks ex_recipe))"
    by (simp add: ingredient_blocks_def block_name_def ex_recipe_def ex_defs crit_defs search_defs)
  have h: "marker_text (is_tag (str ''h1'')) ex_recipe = Some (str '' Tarte '')"
    by (simp add: marker_text_def ex_recipe_def ex_defs find_tag_def find_in_def descendants_def
          str_def)
  have nb: "\<not> blank (str '' Tarte '')"
    by (simp add: blank_def str_def isspace_def)
  from all_markers_result [of ex_site ex_url1 ex_recipe, OF ex_site_page m] d b
  have "\<exists>d. scrape_recipe_data ex_site (Some ex_url1) = Inr d \<and>
        recipe_name d = str ''Tarte'' \<and> recipe_name d \<noteq> [] \<and> trimmed (recipe_name d) \<and>
        length (ingredients_dict d) = 2 \<and>
        length (filter card_ingredient (descendants ex_recipe)) = 2"
    using h nb by (auto simp: ex_recipe_data)
  with ex_site_page m h nb show ?thesis by blast
qed

text \<open>
  The claim as it is written fails on a page with every marker, an empty heading and two
  ingredient blocks of one name: the name comes back empty and the dictionary has one
  entry for the two blocks.
\<close>

theorem all_markers_result_counterexample:
  "markers_present ex_recipe_twice \<and>
   length (filter card_ingredient (descendants ex_recipe_twice)) = 2 \<and>
   scrape_recipe_data (ex_site_with ex_recipe_twice) (Some ex_url1) =
     Inr \<lparr>recipe_name = [], recipe_rate = str ''4.8/5'', recipe_comments = avis_42,
          recipe_difficulty = str ''facile'', recipe_timer = str ''1 h'',
          ingredients_dict = [(str ''sucre'', str ''200'')]\<rparr>"
proof -
  have d: "recipe_of_soup ex_recipe_twice =
     Inr \<lparr>recipe_name = [], recipe_rate = str ''4.8/5'', recipe_comments = avis_42,
          recipe_difficulty = str ''facile'', recipe_timer = str ''1 h'',
          ingredients_dict = [(str ''sucre'', str ''200'')]\<rparr>"
    by (simp add: recipe_of_soup_def ex_recipe_twice_def ex_defs crit_defs search_defs)
  then have "markers_present ex_recipe_twice"
    using recipe_of_soup_Inr_iff[of ex_recipe_twice] by simp
  moreover have "length (filter card_ingredient (descendants ex_recipe_twice)) = 2"
    by (simp add: ex_recipe_twice_def ex_defs crit_defs descendants_def)
  moreover have "scrape_recipe_data (ex_site_with ex_recipe_twice) (Some ex_url1)
      = recipe_of_soup ex_recipe_twice"
    using ex_site_with_page[of ex_url1] by simp
  ultimately show ?thesis using d by simp
qed

lemma one_entry:
  "distinct (map fst d) \<Longrightarrow> map_of d k = Some v \<Longrightarrow> filter (\<lambda>p. fst p = k) d = [(k, v)]"
proof (induction d)
  case Nil
  then show ?case by simp
next
  case (Cons p d)
  show ?case
  proof (cases "fst p = k")
    case True
    with Cons.prems have "p = (k, v)" by (cases p) simp
    moreover have "\<forall>q\<in>set d. fst q \<noteq> k"
    proof
      fix q assume "q \<in> set d"
      then have "fst q \<in> set (map fst d)" by simp
      moreover from Cons.prems(1) have "fst p \<notin> set (map fst d)" by simp
      ultimately show "fst q \<noteq> k" using True by metis
    qed
    then have "filter (\<lambda>p. fst p = k) d = []" by (simp add: filter_empty_conv)
    ultimately show ?thesis by simp
  next
    case False
    with Cons show ?thesis by (cases p) auto
  qed
qed

text \<open>
  C6: when two ingredient blocks carry the same name and the later of them is the last
  block of that name, the dictionary holds under that name the quantity read for the later
  block, in a single entry; when the two quantities differ, the earlier one is gone.
\<close>

theorem later_ingredient_wins:
  assumes "w url = Inr soup" "scrape_recipe_data w (Some url) = Inr d"
    and "i < j" "j < length (ingredient_blocks soup)"
    and "block_name (ingredient_blocks soup ! i) = Some k"
    and "block_name (ingredient_blocks soup ! j) = Some k"
    and "\<forall>m. j < m \<and> m < length (ingredient_blocks soup) \<longrightarrow>
             block_name (ingredient_blocks soup ! m) \<noteq> Some k"
    and "block_quantity (ingredient_blocks soup ! i) \<noteq> block_quantity (ingredient_blocks soup ! j)"
  shows "\<exists>q. block_quantity (ingredient_blocks soup ! j) = Some q \<and>
           map_of (ingredients_dict d) k = Some q \<and>
           map_of (ingredients_dict d) k \<noteq> block_quantity (ingredient_blocks soup ! i) \<and>
           filter (\<lambda>p. fst p = k) (ingredients_dict d) = [(k, q)]"
proof -
  from assms(1,2) have "recipe_of_soup soup = Inr d" by (simp add: scrape_recipe_data_page)
  then have loop: "ingredients_loop (ingredient_blocks soup) [] = Inr (ingredients_dict d)"
    by (rule recipe_of_soup_result(6))
  from loop assms(4,6,7)
  have last: "map_of (ingredients_dict d) k = block_quantity (ingredient_blocks soup ! j)"
    by (rule ingredients_loop_last)
  from loop have "\<forall>b\<in>set (ingredient_blocks soup). block_name b \<noteq> None \<and> block_quantity b \<noteq> None"
    using ingredients_loop_Inr_iff by blast
  with assms(4) obtain q where q: "block_quantity (ingredient_blocks soup ! j) = Some q"
    by (metis nth_mem option.exhaust)
  from loop have "distinct (map fst (ingredients_dict d))"
    by (rule ingredients_loop_distinct) simp
  with last q have "filter (\<lambda>p. fst p = k) (ingredients_dict d) = [(k, q)]"
    by (simp add: one_entry)
  with last q assms(8) show ?thesis by simp
qed

lemma ex_recipe_twice_data:
  "recipe_of_soup ex_recipe_twice =
     Inr \<lparr>recipe_name = [], recipe_rate = str ''4.8/5'', recipe_comments = avis_42,
          recipe_difficulty = str ''facile'', recipe_timer = str ''1 h'',
          ingredients_dict = [(str ''sucre'', str ''200'')]\<rparr>"
  by (simp add: recipe_of_soup_def ex_recipe_twice_def ex_defs crit_defs search_defs)

lemma ex_recipe_twice_blocks:
  "map block_name (ingredient_blocks ex_recipe_twice) = [Some (str ''sucre''), Some (str ''sucre'')]"
  "map block_quantity (ingredient_blocks ex_recipe_twice) = [Some (str ''100''), Some (str ''200'')]"
  by (simp_all add: ingredient_blocks_def block_name_def block_quantity_def ex_recipe_twice_def
        ex_defs crit_defs search_defs)

theorem later_ingredient_wins_witness:
  "ex_site_with ex_recipe_twice ex_url1 = Inr ex_recipe_twice \<and>
   map block_name (ingredient_blocks ex_recipe_twice) = [Some (str ''sucre''), Some (str ''sucre'')] \<and>
   map block_quantity (ingredient_blocks ex_recipe_twice) = [Some (str ''100''), Some (str ''200'')] \<and>
   (\<exists>d. scrape_recipe_data (ex_site_with ex_recipe_twice) (Some ex_url1) = Inr d \<and>
        map_of (ingredients_dict d) (str ''sucre'') = Some (str ''200'') \<and>
        filter (\<lambda>p. fst p = str ''sucre'') (ingredients_dict d) = [(str ''sucre'', str ''200'')])"
proof -
  let ?b = "ingredient_blocks ex_recipe_twice"
  have page: "ex_site_with ex_recipe_twice ex_url1 = Inr ex_recipe_twice"
    using ex_urls_fresh[of ex_url1] by (simp add: ex_site_with_def)
  obtain d where d: "scrape_recipe_data (ex_site_with ex_recipe_twice) (Some ex_url1) = Inr d"
    using scrape_recipe_data_page[of "ex_site_with ex_recipe_twice" ex_url1 ex_recipe_twice]
      page ex_recipe_twice_data by simp
  have len: "length ?b = 2"
    using ex_recipe_twice_blocks(1) by (metis length_map length_Cons list.size(3) numeral_2_eq_2)
  have n: "block_name (?b ! 0) = Some (str ''sucre'')" "block_name (?b ! 1) = Some (str ''sucre'')"
    using ex_recipe_twice_blocks(1) len by (metis nth_map nth_Cons_0 zero_less_numeral,
        metis nth_map nth_Cons_0 nth_Cons_Suc One_nat_def one_less_numeral_iff semiring_norm(76))
  have q: "block_quantity (?b ! 0) = Some (str ''100'')" "block_quantity (?b ! 1) = Some (str ''200'')"
    using ex_recipe_twice_blocks(2) len by (metis nth_map nth_Cons_0 zero_less_numeral,
        metis nth_map nth_Cons_0 nth_Cons_Suc One_nat_def one_less_numeral_iff semiring_norm(76))
  have differ: "block_quantity (?b ! 0) \<noteq> block_quantity (?b ! 1)"
    using q by (simp add: str_eq_iff)
  have last: "\<forall>m. 1 < m \<and> m < length ?b \<longrightarrow> block_name (?b ! m) \<noteq> Some (str ''sucre'')"
  proof (intro allI impI)
    fix m assume "1 < m \<and> m < length ?b"
    with len have False by linarith
    then show "block_name (?b ! m) \<noteq> Some (str ''sucre'')" ..
  qed
  from later_ingredient_wins [of "ex_site_with ex_recipe_twice" ex_url1 ex_recipe_twice d 0 1
      "str ''sucre''", OF page d _ _ n last differ] len q
  have "map_of (ingredients_dict d) (str ''sucre'') = Some (str ''200'') \<and>
        filter (\<lambda>p. fst p = str ''sucre'') (ingredients_dict d) = [(str ''sucre'', str ''200'')]"
    by auto
  with page d ex_recipe_twice_blocks show ?thesis by blast
qed

lemma scrape_recipes_info_single:
  "scrape_recipes_info w [url] ty =
     (case recipe_record w ty url of Inl e \<Rightarrow> Inl e | Inr r \<Rightarrow> Inr (DataFrame [r]))"
  by (simp add: scrape_recipes_info_def split: sum.splits)

lemma recipe_record_data:
  "scrape_recipe_data w url = Inr d \<Longrightarrow>
   recipe_record w ty url =
     (if \<forall>c\<in>set (recipe_comments d). isspace c then Inl IndexError
      else Inr [(str ''Recipe Type'', cell_of ty),
                (str ''Recipe Name'', CStr (recipe_name d)),
                (str ''Rating'', CStr (recipe_rate d)),
                (str ''Comments'',
                 CStr (takeWhile (\<lambda>c. \<not> isspace c) (dropWhile isspace (recipe_comments d)))),
                (str ''Difficulty'', CStr (recipe_difficulty d)),
                (str ''Timer'', CStr (recipe_timer d)),
                (str ''Ingredients'', CDict (ingredients_dict d)),
                (str ''URL'', cell_of url)])"
  by (simp add: recipe_record_def py_split_first)

text \<open>
  C9: there is a page that \<open>scrape_recipe_data\<close> scrapes without failure, with an empty
  comments phrase, on which \<open>scrape_recipes_info\<close> fails with \<open>IndexError\<close>. In
  general, once the page is scraped, the row is built exactly when the comments phrase
  has a character that is not whitespace, and \<open>IndexError\<close> is raised exactly when it
  has none.
\<close>

theorem empty_comments_abort:
  "(\<exists>w url d. scrape_recipe_data w url = Inr d \<and> recipe_comments d = [] \<and>
       scrape_recipes_info w [url] ty = Inl IndexError) \<and>
   (scrape_recipe_data w url = Inr d \<longrightarrow>
      (scrape_recipes_info w [url] ty = Inl IndexError \<longleftrightarrow>
         (\<forall>c\<in>set (recipe_comments d). isspace c)) \<and>
      ((\<exists>df. scrape_recipes_info w [url] ty = Inr df) \<longleftrightarrow>
         (\<exists>c\<in>set (recipe_comments d). \<not> isspace c)))"
proof -
  have general: "(scrape_recipes_info w [url] ty = Inl IndexError \<longleftrightarrow>
         (\<forall>c\<in>set (recipe_comments d). isspace c)) \<and>
      ((\<exists>df. scrape_recipes_info w [url] ty = Inr df) \<longleftrightarrow>
         (\<exists>c\<in>set (recipe_comments d). \<not> isspace c))"
    if "scrape_recipe_data w url = Inr d" for w url d
    using recipe_record_data[OF that, of ty] by (auto simp: scrape_recipes_info_single)
  let ?w = "ex_site_with ex_recipe_silent"
  have "recipe_of_soup ex_recipe_silent =
     Inr \<lparr>recipe_name = str ''Tarte'', recipe_rate = str ''4.8/5'', recipe_comments = [],
          recipe_difficulty = str ''facile'', recipe_timer = str ''1 h'', ingredients_dict = []\<rparr>"
    by (simp add: recipe_of_soup_def ex_recipe_silent_def ex_defs crit_defs search_defs)
  then have d: "scrape_recipe_data ?w (Some ex_url1) =
     Inr \<lparr>recipe_name = str ''Tarte'', recipe_rate = str ''4.8/5'', recipe_comments = [],
          recipe_difficulty = str ''facile'', recipe_timer = str ''1 h'', ingredients_dict = []\<rparr>"
    using ex_site_with_page[of ex_url1 ex_recipe_silent] by simp
  from general[OF d] have "scrape_recipes_info ?w [Some ex_url1] ty = Inl IndexError" by simp
  with d have "\<exists>w url d. scrape_recipe_data w url = Inr d \<and> recipe_comments d = [] \<and>
       scrape_recipes_info w [url] ty = Inl IndexError"
    by (intro exI[of _ ?w] exI[of _ "Some ex_url1"]) auto
  with general show ?thesis by blast
qed

theorem empty_comments_abort_witness:
  "scrape_recipe_data (ex_site_with ex_recipe_silent) (Some ex_url1) =
     Inr \<lparr>recipe_name = str ''Tarte'', recipe_rate = str ''4.8/5'', recipe_comments = [],
          recipe_difficulty = str ''facile'', recipe_timer = str ''1 h'', ingredients_dict = []\<rparr> \<and>
   scrape_recipes_info (ex_site_with ex_recipe_silent) [Some ex_url1] (recipe_type url_entree)
     = Inl IndexError"
proof -
  have "recipe_of_soup ex_recipe_silent =
     Inr \<lparr>recipe_name = str ''Tarte'', recipe_rate = str ''4.8/5'', recipe_comments = [],
          recipe_difficulty = str ''facile'', recipe_timer = str ''1 h'', ingredients_dict = []\<rparr>"
    by (simp add: recipe_of_soup_def ex_recipe_silent_def ex_defs crit_defs search_defs)
  then have d: "scrape_recipe_data (ex_site_with ex_recipe_silent) (Some ex_url1) =
     Inr \<lparr>recipe_name = str ''Tarte'', recipe_rate = str ''4.8/5'', recipe_comments = [],
          recipe_difficulty = str ''facile'', recipe_timer = str ''1 h'', ingredients_dict = []\<rparr>"
    using ex_site_with_page[of ex_url1 ex_recipe_silent] by simp
  from empty_comments_abort [of "recipe_type url_entree" "ex_site_with ex_recipe_silent"
      "Some ex_url1" "\<lparr>recipe_name = str ''Tarte'', recipe_rate = str ''4.8/5'',
          recipe_comments = [], recipe_difficulty = str ''facile'', recipe_timer = str ''1 h'',
          ingredients_dict = []\<rparr>"] d
  show ?thesis by simp
qed

lemma avis_42_first: "first (py_split avis_42) = Inr (str ''42'')"
  by (simp add: avis_42_def py_split_def first_def str_def isspace_def)

text \<open>
  C5: for a recipe whose comments field is the phrase \<open>42 avis publi\'es\<close>, the row
  is built, and in every batch built by \<open>scrape_recipes_info\<close> the row of that recipe
  has \<open>42\<close>, the first token of the phrase, in its \<open>Comments\<close> column.
\<close>

theorem comments_first_token:
  assumes "scrape_recipe_data w url = Inr d" "recipe_comments d = avis_42"
  shows "(\<exists>t. scrape_recipes_info w [url] ty = Inr t \<and>
              column_values t (str ''Comments'') = [Some (CStr (str ''42''))]) \<and>
         (scrape_recipes_info w urls ty = Inr df \<and> i < length urls \<and> urls ! i = url \<longrightarrow>
            length (column_values df (str ''Comments'')) = length urls \<and>
            column_values df (str ''Comments'') ! i = Some (CStr (str ''42'')))"
proof -
  have cell: "map_of r (str ''Comments'') = Some (CStr (str ''42''))"
    if "recipe_record w ty url = Inr r" for r
    using that assms avis_42_first by (intro recipe_record_comments[of w ty url r d]) auto
  have tok: "py_split avis_42 \<noteq> []"
    using avis_42_first by (auto simp: first_def split: list.splits)
  with assms obtain r where r: "recipe_record w ty url = Inr r"
    using recipe_record_Inr_iff[of w ty url] by auto
  have "column_values (DataFrame [r]) (str ''Comments'') = map (\<lambda>d. map_of d (str ''Comments'')) [r]"
    using recipe_record_keys[OF r] by (intro column_values_records) simp
  with cell[OF r] r have one: "\<exists>t. scrape_recipes_info w [url] ty = Inr t \<and>
      column_values t (str ''Comments'') = [Some (CStr (str ''42''))]"
    by (simp add: scrape_recipes_info_single)
  have batch: "length (column_values df (str ''Comments'')) = length urls \<and>
      column_values df (str ''Comments'') ! i = Some (CStr (str ''42''))"
    if b: "scrape_recipes_info w urls ty = Inr df" and i: "i < length urls" "urls ! i = url"
  proof -
    from b obtain rs where
      rs: "list_all2 (\<lambda>url r. recipe_record w ty url = Inr r) urls rs" and df: "df = DataFrame rs"
      by (auto simp: scrape_recipes_info_Inr)
    from rs have len: "length rs = length urls" by (rule batch_length)
    have col: "column_values df (str ''Comments'') = map (\<lambda>d. map_of d (str ''Comments'')) rs"
      unfolding df by (rule column_values_records) (rule batch_keys[OF rs])
    have "recipe_record w ty url = Inr (rs ! i)"
      using list_all2_nthD[OF rs i(1)] i(2) by simp
    then have "map_of (rs ! i) (str ''Comments'') = Some (CStr (str ''42''))" by (rule cell)
    with col len i(1) show ?thesis by simp
  qed
  from one batch show ?thesis by blast
qed

theorem comments_first_token_witness:
  "\<exists>df d. scrape_recipe_data ex_site (Some ex_url2) = Inr d \<and> recipe_comments d = avis_42 \<and>
      scrape_recipes_info ex_site [Some ex_url1, Some ex_url2] (recipe_type url_entree) = Inr df \<and>
      column_values df (str ''Comments'') ! 1 = Some (CStr (str ''42''))"
proof -
  let ?urls = "[Some ex_url1, Some ex_url2]"
  let ?d = "\<lparr>recipe_name = str ''Tarte'', recipe_rate = str ''4.8/5'', recipe_comments = avis_42,
          recipe_difficulty = str ''facile'', recipe_timer = str ''1 h'',
          ingredients_dict = [(str ''sucre'', str ''100''), (str ''farine'', str ''250'')]\<rparr>"
  have pages: "\<And>u. u \<in> {ex_url1, ex_url2, ex_url3} \<Longrightarrow> scrape_recipe_data ex_site (Some u) = Inr ?d"
    using ex_site_with_page[of _ ex_recipe] by (simp add: ex_site_def ex_recipe_data)
  have tok: "py_split avis_42 \<noteq> []"
    using avis_42_first by (auto simp: first_def split: list.splits)
  have "\<forall>url\<in>set ?urls. \<exists>d. scrape_recipe_data ex_site url = Inr d \<and> py_split (recipe_comments d) \<noteq> []"
    using pages tok by simp
  then obtain df where df: "scrape_recipes_info ex_site ?urls (recipe_type url_entree) = Inr df"
    using scrape_recipes_info_Inr_iff[of ex_site ?urls "recipe_type url_entree"] by blast
  have d: "scrape_recipe_data ex_site (Some ex_url2) = Inr ?d" using pages by simp
  from comments_first_token [of ex_site "Some ex_url2" ?d "recipe_type url_entree" ?urls df 1, OF d]
    df d
  show ?thesis by auto
qed

lemma recipe_type_listing:
  "recipe_type url_entree = Some (str ''entree'')"
  "recipe_type url_plat = Some (str ''plat'')"
  "recipe_type url_dessert = Some (str ''dessert'')"
  using urls_distinct by (simp_all add: recipe_type_def)

lemma create_database_Inr_iff:
  assumes "scrape_recipe_links w (Some url_entree) = Inr l1"
    and "scrape_recipe_links w (Some url_plat) = Inr l2"
    and "scrape_recipe_links w (Some url_dessert) = Inr l3"
  shows "(\<exists>df. create_database w = Inr df) \<longleftrightarrow>
         (\<forall>url\<in>set (l1 @ l2 @ l3).
            \<exists>d. scrape_recipe_data w url = Inr d \<and> py_split (recipe_comments d) \<noteq> [])"
proof
  assume "\<exists>df. create_database w = Inr df"
  then obtain df where "create_database w = Inr df" ..
  from create_database_batches[OF this] assms
  show "\<forall>url\<in>set (l1 @ l2 @ l3).
          \<exists>d. scrape_recipe_data w url = Inr d \<and> py_split (recipe_comments d) \<noteq> []"
    by auto
next
  assume ok: "\<forall>url\<in>set (l1 @ l2 @ l3).
      \<exists>d. scrape_recipe_data w url = Inr d \<and> py_split (recipe_comments d) \<noteq> []"
  have "\<exists>df. scrape_recipes_info w l1 (recipe_type url_entree) = Inr df"
    "\<exists>df. scrape_recipes_info w l2 (recipe_type url_plat) = Inr df"
    "\<exists>df. scrape_recipes_info w l3 (recipe_type url_dessert) = Inr df"
    using ok by (simp_all add: scrape_recipes_info_Inr_iff)
  then obtain d1 d2 d3 where
    "scrape_recipes_info w l1 (recipe_type url_entree) = Inr d1"
    "scrape_recipes_info w l2 (recipe_type url_plat) = Inr d2"
    "scrape_recipes_info w l3 (recipe_type url_dessert) = Inr d3"
    by blast
  with assms show "\<exists>df. create_database w = Inr df" by (simp add: create_database_def)
qed

lemma create_database_table:
  assumes "create_database w = Inr df"
    and "scrape_recipe_links w (Some url_entree) = Inr l1"
    and "scrape_recipe_links w (Some url_plat) = Inr l2"
    and "scrape_recipe_links w (Some url_dessert) = Inr l3"
  shows "length (rows df) = length l1 + length l2 + length l3"
    and "index df = [0 ..< length l1 + length l2 + length l3]"
    and "columns df = (if l1 @ l2 @ l3 = [] then [] else record_labels)"
    and "\<forall>r\<in>set (rows df). length r = 8"
    and "column_values df (str ''Recipe Type'') =
           replicate (length l1) (Some (CStr (str ''entree''))) @
           replicate (length l2) (Some (CStr (str ''plat''))) @
           replicate (length l3) (Some (CStr (str ''dessert'')))"
    and "column_values df (str ''URL'') = map (\<lambda>u. Some (cell_of u)) (l1 @ l2 @ l3)"
proof -
  from assms obtain r1 r2 r3 where
    r: "list_all2 (\<lambda>url r. recipe_record w (recipe_type url_entree) url = Inr r) l1 r1"
       "list_all2 (\<lambda>url r. recipe_record w (recipe_type url_plat) url = Inr r) l2 r2"
       "list_all2 (\<lambda>url r. recipe_record w (recipe_type url_dessert) url = Inr r) l3 r3"
    and df: "df = DataFrame (r1 @ r2 @ r3)"
    by (auto simp: create_database_Inr)
  have keys: "\<forall>d\<in>set (r1 @ r2 @ r3). map fst d = record_labels"
    using batch_keys[OF r(1)] batch_keys[OF r(2)] batch_keys[OF r(3)] by auto
  note f = DataFrame_records[OF keys]
  have len: "length r1 = length l1" "length r2 = length l2" "length r3 = length l3"
    using r by (simp_all add: batch_length)
  show "length (rows df) = length l1 + length l2 + length l3"
    unfolding df f(3) using len by simp
  show "index df = [0 ..< length l1 + length l2 + length l3]"
    unfolding df f(2) using len by (simp add: add.assoc)
  show "columns df = (if l1 @ l2 @ l3 = [] then [] else record_labels)"
    unfolding df f(1) using len by (metis length_0_conv length_append)
  show "\<forall>r\<in>set (rows df). length r = 8"
  proof
    fix x assume "x \<in> set (rows df)"
    then obtain d where "d \<in> set (r1 @ r2 @ r3)" "x = map snd d"
      unfolding df f(3) by auto
    with keys have "length x = length record_labels" by (metis length_map)
    then show "length x = 8" by (simp add: labels_length)
  qed
  have col: "\<And>c. column_values df c = map (\<lambda>d. map_of d c) (r1 @ r2 @ r3)"
    unfolding df by (rule column_values_records[OF keys])
  show "column_values df (str ''Recipe Type'') =
           replicate (length l1) (Some (CStr (str ''entree''))) @
           replicate (length l2) (Some (CStr (str ''plat''))) @
           replicate (length l3) (Some (CStr (str ''dessert'')))"
    using batch_types[OF r(1)] batch_types[OF r(2)] batch_types[OF r(3)]
    by (simp add: col recipe_type_listing)
  show "column_values df (str ''URL'') = map (\<lambda>u. Some (cell_of u)) (l1 @ l2 @ l3)"
    using batch_urls[OF r(1)] batch_urls[OF r(2)] batch_urls[OF r(3)]
    by (simp add: col)
qed

text \<open>
  C1, as the code has it: when the three listing pages give 2, 1 and 3 links, the run
  builds a table exactly when each of the six linked pages is scraped without failure and
  has a token in its comments phrase. The table then has exactly 6 rows, indexed 0 to 5:
  the first 2 of type \<open>entree\<close>, the next of type \<open>plat\<close>, the last 3 of type
  \<open>dessert\<close>, the rows of each batch in the order of its links.
\<close>

theorem create_database_rows:
  assumes "scrape_recipe_links w (Some url_entree) = Inr l1"
    and "scrape_recipe_links w (Some url_plat) = Inr l2"
    and "scrape_recipe_links w (Some url_dessert) = Inr l3"
    and "length l1 = 2" "length l2 = 1" "length l3 = 3"
  shows "((\<exists>t. create_database w = Inr t) \<longleftrightarrow>
          (\<forall>url\<in>set (l1 @ l2 @ l3).
             \<exists>d. scrape_recipe_data w url = Inr d \<and> py_split (recipe_comments d) \<noteq> [])) \<and>
         (create_database w = Inr df \<longrightarrow>
            length (rows df) = 6 \<and> index df = [0 ..< 6] \<and>
            column_values df (str ''Recipe Type'') =
              map (\<lambda>t. Some (CStr (str t)))
                [''entree'', ''entree'', ''plat'', ''dessert'', ''dessert'', ''dessert''] \<and>
            column_values df (str ''URL'') = map (\<lambda>u. Some (cell_of u)) (l1 @ l2 @ l3))"
proof -
  have "length (rows df) = 6 \<and> index df = [0 ..< 6] \<and>
        column_values df (str ''Recipe Type'') =
          map (\<lambda>t. Some (CStr (str t)))
            [''entree'', ''entree'', ''plat'', ''dessert'', ''dessert'', ''dessert''] \<and>
        column_values df (str ''URL'') = map (\<lambda>u. Some (cell_of u)) (l1 @ l2 @ l3)"
    if "create_database w = Inr df"
  proof -
    note t = create_database_table[OF that assms(1-3)]
    have n: "length l1 + length l2 + length l3 = 6" using assms(4-6) by simp
    have "length (rows df) = 6" using t(1) n by simp
    moreover have "index df = [0 ..< 6]" using t(2) n by simp
    moreover have "column_values df (str ''Recipe Type'') =
          map (\<lambda>t. Some (CStr (str t)))
            [''entree'', ''entree'', ''plat'', ''dessert'', ''dessert'', ''dessert'']"
      unfolding t(5) assms(4-6) by (simp add: numeral_2_eq_2 numeral_3_eq_3)
    ultimately show ?thesis using t(6) by simp
  qed
  with create_database_Inr_iff[OF assms(1-3)] show ?thesis by blast
qed

lemma ex_pages:
  "u \<in> {ex_url1, ex_url2, ex_url3} \<Longrightarrow>
   \<exists>d. scrape_recipe_data ex_site (Some u) = Inr d \<and> py_split (recipe_comments d) \<noteq> []"
proof -
  assume "u \<in> {ex_url1, ex_url2, ex_url3}"
  then have "scrape_recipe_data ex_site (Some u) = recipe_of_soup ex_recipe"
    using ex_site_with_page[of u ex_recipe] by (simp add: ex_site_def)
  moreover have "py_split avis_42 \<noteq> []"
    using avis_42_first by (auto simp: first_def split: list.splits)
  ultimately show ?thesis by (simp add: ex_recipe_data)
qed

theorem create_database_rows_witness:
  "scrape_recipe_links ex_site (Some url_entree) = Inr [Some ex_url1, Some ex_url2] \<and>
   scrape_recipe_links ex_site (Some url_plat) = Inr [Some ex_url3] \<and>
   scrape_recipe_links ex_site (Some url_dessert) = Inr [Some ex_url1, Some ex_url2, Some ex_url3] \<and>
   (\<exists>df. create_database ex_site = Inr df \<and> length (rows df) = 6 \<and>
      column_values df (str ''Recipe Type'') =
        map (\<lambda>t. Some (CStr (str t)))
          [''entree'', ''entree'', ''plat'', ''dessert'', ''dessert'', ''dessert''] \<and>
      column_values df (str ''URL'') =
        map (\<lambda>u. Some (CStr u)) [ex_url1, ex_url2, ex_url3, ex_url1, ex_url2, ex_url3])"
proof -
  let ?l1 = "[Some ex_url1, Some ex_url2]" and ?l2 = "[Some ex_url3]"
  let ?l3 = "[Some ex_url1, Some ex_url2, Some ex_url3]"
  have l: "scrape_recipe_links ex_site (Some url_entree) = Inr ?l1"
    "scrape_recipe_links ex_site (Some url_plat) = Inr ?l2"
    "scrape_recipe_links ex_site (Some url_dessert) = Inr ?l3"
    by (simp_all add: ex_site_def ex_site_with_links)
  have ok: "\<forall>url\<in>set (?l1 @ ?l2 @ ?l3).
      \<exists>d. scrape_recipe_data ex_site url = Inr d \<and> py_split (recipe_comments d) \<noteq> []"
    using ex_pages by auto
  have "\<exists>t. create_database ex_site = Inr t"
    using create_database_rows [of ex_site ?l1 ?l2 ?l3, OF l] ok by simp
  then obtain df where df: "create_database ex_site = Inr df" ..
  from create_database_rows [of ex_site ?l1 ?l2 ?l3 df, OF l] df l
  show ?thesis by auto
qed

text \<open>
  The claim as it is written fails when a linked page cannot be scraped: with listings of
  2, 1 and 3 links and recipe pages without the difficulty icon, the run fails and no
  table is produced.
\<close>

theorem create_database_rows_counterexample:
  "scrape_recipe_links ex_site_broken (Some url_entree) = Inr [Some ex_url1, Some ex_url2] \<and>
   scrape_recipe_links ex_site_broken (Some url_plat) = Inr [Some ex_url3] \<and>
   scrape_recipe_links ex_site_broken (Some url_dessert) =
     Inr [Some ex_url1, Some ex_url2, Some ex_url3] \<and>
   create_database ex_site_broken = Inl AttributeError"
proof -
  have "scrape_recipe_data ex_site_broken (Some ex_url1) = Inl AttributeError"
    using ex_site_with_page[of ex_url1 ex_recipe_no_difficulty]
      recipe_of_soup_fail[OF ex_no_difficulty_markers]
    by (simp add: ex_site_broken_def)
  then have "scrape_recipes_info ex_site_broken [Some ex_url1, Some ex_url2] (recipe_type url_entree)
      = Inl AttributeError"
    by (simp add: scrape_recipes_info_def recipe_record_def)
  then show ?thesis
    by (simp add: create_database_def ex_site_broken_def ex_site_with_links)
qed

lemma create_database_shape:
  assumes "create_database w = Inr df"
  shows "index df = [0 ..< length (rows df)]"
    and "columns df = (if rows df = [] then [] else record_labels)"
    and "\<forall>r\<in>set (rows df). length r = 8"
proof -
  from create_database_batches[OF assms] obtain l1 l2 l3 where
    l: "scrape_recipe_links w (Some url_entree) = Inr l1"
       "scrape_recipe_links w (Some url_plat) = Inr l2"
       "scrape_recipe_links w (Some url_dessert) = Inr l3"
    by blast
  note t = create_database_table[OF assms l]
  from t(1,2) show "index df = [0 ..< length (rows df)]" by simp
  from t(1) have "rows df = [] \<longleftrightarrow> l1 @ l2 @ l3 = []" by (metis length_0_conv length_append add.assoc)
  with t(3) show "columns df = (if rows df = [] then [] else record_labels)" by simp
  from t(4) show "\<forall>r\<in>set (rows df). length r = 8" .
qed

text \<open>
  C8, as the code has it: a run that succeeds stores at the fixed path, in place of
  whatever was there, the table it built, and touches no other file. The file starts with
  the empty label of the row-index column; when the table has at least one row, the
  labels Recipe Type, Recipe Name, Rating, Comments, Difficulty, Timer, Ingredients, URL
  follow in that order, each line being the row's index and its eight cells. When the
  table has no row, no column label follows. A run that fails writes nothing.
\<close>

theorem output_table:
  "(fst (run w fs) = None \<longrightarrow>
      (\<exists>df. create_database w = Inr df \<and>
         snd (run w fs) = fs(output_path \<mapsto> to_csv df) \<and>
         header (to_csv df) =
           (if rows df = [] then [[]]
            else [[], str ''Recipe Type'', str ''Recipe Name'', str ''Rating'', str ''Comments'',
                  str ''Difficulty'', str ''Timer'', str ''Ingredients'', str ''URL'']) \<and>
         lines (to_csv df) = zip [0 ..< length (rows df)] (rows df) \<and>
         (\<forall>r\<in>set (rows df). length r = 8))) \<and>
   (fst (run w fs) \<noteq> None \<longrightarrow> snd (run w fs) = fs)"
proof (cases "create_database w")
  case (Inl e)
  then show ?thesis by (simp add: run_def)
next
  case (Inr df)
  note s = create_database_shape[OF Inr]
  have "header (to_csv df) =
           (if rows df = [] then [[]]
            else [[], str ''Recipe Type'', str ''Recipe Name'', str ''Rating'', str ''Comments'',
                  str ''Difficulty'', str ''Timer'', str ''Ingredients'', str ''URL''])"
    using s(2) by (simp add: to_csv_def record_labels_def)
  moreover have "lines (to_csv df) = zip [0 ..< length (rows df)] (rows df)"
    using s(1) by (simp add: to_csv_def)
  ultimately show ?thesis using Inr s(3) by (simp add: run_def)
qed

theorem output_table_witness:
  "fst (run ex_site no_files) = None \<and>
   (\<exists>df. snd (run ex_site no_files) = no_files(output_path \<mapsto> to_csv df) \<and>
      header (to_csv df) =
        [[], str ''Recipe Type'', str ''Recipe Name'', str ''Rating'', str ''Comments'',
         str ''Difficulty'', str ''Timer'', str ''Ingredients'', str ''URL''] \<and>
      length (lines (to_csv df)) = 6) \<and>
   fst (run ex_site_broken no_files) \<noteq> None \<and>
   snd (run ex_site_broken no_files) = no_files"
proof -
  let ?l1 = "[Some ex_url1, Some ex_url2]" and ?l2 = "[Some ex_url3]"
  let ?l3 = "[Some ex_url1, Some ex_url2, Some ex_url3]"
  have l: "scrape_recipe_links ex_site (Some url_entree) = Inr ?l1"
    "scrape_recipe_links ex_site (Some url_plat) = Inr ?l2"
    "scrape_recipe_links ex_site (Some url_dessert) = Inr ?l3"
    by (simp_all add: ex_site_def ex_site_with_links)
  have "\<forall>url\<in>set (?l1 @ ?l2 @ ?l3).
      \<exists>d. scrape_recipe_data ex_site url = Inr d \<and> py_split (recipe_comments d) \<noteq> []"
    using ex_pages by auto
  then obtain t where t: "create_database ex_site = Inr t"
    using create_database_Inr_iff[OF l] by blast
  have six: "length (rows t) = 6"
    using create_database_table(1)[OF t l] by simp
  have ok: "fst (run ex_site no_files) = None" using t by (simp add: run_def)
  have "scrape_recipe_data ex_site_broken (Some ex_url1) = Inl AttributeError"
    using ex_site_with_page[of ex_url1 ex_recipe_no_difficulty]
      recipe_of_soup_fail[OF ex_no_difficulty_markers]
    by (simp add: ex_site_broken_def)
  then have "scrape_recipes_info ex_site_broken ?l1 (recipe_type url_entree) = Inl AttributeError"
    by (simp add: scrape_recipes_info_def recipe_record_def)
  then have "create_database ex_site_broken = Inl AttributeError"
    by (simp add: create_database_def ex_site_broken_def ex_site_with_links)
  then have bad: "fst (run ex_site_broken no_files) \<noteq> None" by (simp add: run_def)
  from output_table [of ex_site no_files] ok t
  have w: "snd (run ex_site no_files) = no_files(output_path \<mapsto> to_csv t)"
    and h: "header (to_csv t) =
           (if rows t = [] then [[]]
            else [[], str ''Recipe Type'', str ''Recipe Name'', str ''Rating'', str ''Comments'',
                  str ''Difficulty'', str ''Timer'', str ''Ingredients'', str ''URL''])"
    and n: "lines (to_csv t) = zip [0 ..< length (rows t)] (rows t)"
    by auto
  from six have "rows t \<noteq> []" by auto
  with h have h': "header (to_csv t) =
        [[], str ''Recipe Type'', str ''Recipe Name'', str ''Rating'', str ''Comments'',
         str ''Difficulty'', str ''Timer'', str ''Ingredients'', str ''URL'']" by simp
  from n six have "length (lines (to_csv t)) = 6" by simp
  with w h' have "\<exists>df. snd (run ex_site no_files) = no_files(output_path \<mapsto> to_csv df) \<and>
      header (to_csv df) =
        [[], str ''Recipe Type'', str ''Recipe Name'', str ''Rating'', str ''Comments'',
         str ''Difficulty'', str ''Timer'', str ''Ingredients'', str ''URL''] \<and>
      length (lines (to_csv df)) = 6"
    by (intro exI[of _ t]) simp
  moreover from output_table [of ex_site_broken no_files] bad
  have "snd (run ex_site_broken no_files) = no_files" by blast
  ultimately show ?thesis using ok bad by blast
qed

text \<open>
  The claim as it is written fails on a run that finds no recipe card: the run succeeds,
  and the file it writes has the index column only, none of the eight columns.
\<close>

theorem output_table_counterexample:
  "fst (run ex_site_empty no_files) = None \<and>
   snd (run ex_site_empty no_files) output_path = Some \<lparr>header = [[]], lines = []\<rparr>"
proof -
  have links: "\<And>u. scrape_recipe_links ex_site_empty (Some u) = Inr []"
    by (simp add: scrape_recipe_links_def get_soup_def ex_site_empty_def ex_document_def
          find_all_def descendants_def crit_defs)
  have "create_database ex_site_empty = Inr \<lparr>columns = [], index = [], rows = []\<rparr>"
    by (simp add: create_database_def links scrape_recipes_info_def DataFrame_def
          append_dataframes_def union_labels_def)
  then show ?thesis by (simp add: run_def to_csv_def)
qed

end
